theory Spec2Isabelle
  imports Complex_Main "HOL-Library.Word"
begin

section \<open>JavaScript strings\<close>

text \<open>
  A JavaScript string is a sequence of UTF-16 code units. \<open>===\<close> on strings, \<open>.length\<close>,
  \<open>String.prototype.replace\<close> and a regular expression without the \<open>u\<close> flag all work on
  code units, so a "character" of the program is a 16-bit word.
\<close>

type_synonym code_unit = "16 word"
type_synonym jsstring = "code_unit list"

definition ascii :: "string \<Rightarrow> jsstring" where
  "ascii s = map of_char s"

definition c_star :: code_unit where "c_star = of_char CHR ''*''"
definition c_question :: code_unit where "c_question = of_char CHR ''?''"
definition c_dot :: code_unit where "c_dot = of_char CHR ''.''"
definition c_caret :: code_unit where "c_caret = of_char CHR ''^''"
definition c_dollar :: code_unit where "c_dollar = of_char CHR ''$''"
definition c_backslash :: code_unit where "c_backslash = 0x5C"

text \<open>
  The four LineTerminator code points of ECMAScript: LF, CR, LINE SEPARATOR and
  PARAGRAPH SEPARATOR. A \<open>.\<close> in a regular expression built without the \<open>s\<close> flag matches
  every code unit except these.
\<close>

definition is_line_terminator :: "code_unit \<Rightarrow> bool" where
  "is_line_terminator c = (c = 0x0A \<or> c = 0x0D \<or> c = 0x2028 \<or> c = 0x2029)"

section \<open>config.ts: the glob matcher\<close>

text \<open>
  The character class of the first \<open>replace\<close> of \<open>matchGlobPattern\<close>,
  \<^verbatim>\<open>/[.+^${}()|[\]\\]/g\<close>: the twelve characters \<^verbatim>\<open>. + ^ $ { } ( ) | [ ] \\<close>.
\<close>

definition special_chars :: "code_unit list" where
  "special_chars = ascii ''.+^${}()|[]'' @ [c_backslash]"

definition is_special :: "code_unit \<Rightarrow> bool" where
  "is_special c = (c \<in> set special_chars)"

text \<open>\<^verbatim>\<open>.replace(/[.+^${}()|[\]\\]/g, "\\$&")\<close>: every special character gets a backslash in front.\<close>

definition escapeSpecial :: "jsstring \<Rightarrow> jsstring" where
  "escapeSpecial s = concat (map (\<lambda>c. if is_special c then [c_backslash, c] else [c]) s)"

text \<open>\<^verbatim>\<open>.replace(/\*/g, ".*")\<close>\<close>

definition replaceStar :: "jsstring \<Rightarrow> jsstring" where
  "replaceStar s = concat (map (\<lambda>c. if c = c_star then [c_dot, c_star] else [c]) s)"

text \<open>\<^verbatim>\<open>.replace(/\?/g, ".")\<close>\<close>

definition replaceQuestion :: "jsstring \<Rightarrow> jsstring" where
  "replaceQuestion s = concat (map (\<lambda>c. if c = c_question then [c_dot] else [c]) s)"

definition regexPattern :: "jsstring \<Rightarrow> jsstring" where
  "regexPattern pattern = replaceQuestion (replaceStar (escapeSpecial pattern))"

subsection \<open>The fragment of \<open>RegExp\<close> the matcher uses\<close>

text \<open>
  \<open>new RegExp(source)\<close> and \<open>regex.test(str)\<close> belong to the platform. They are modelled for
  the sources of the shape \<^verbatim>\<open>^ item ... item $\<close>, where an item is a pattern character, an
  escaped syntax character or \<open>.\<close>, optionally followed by \<open>*\<close>. For every other source
  \<open>regexp_compile\<close> gives \<open>None\<close>; \<open>regexPattern\<close> never leaves the fragment (lemma
  \<open>regexp_compile_regexPattern\<close> below).
\<close>

datatype atom = Lit code_unit | AnyChar

datatype item = One atom | Many atom

text \<open>The SyntaxCharacters of the ECMAScript pattern grammar.\<close>

definition is_syntax_char :: "code_unit \<Rightarrow> bool" where
  "is_syntax_char c = (is_special c \<or> c = c_star \<or> c = c_question)"

fun parse_items :: "jsstring \<Rightarrow> item list option" where
  "parse_items [] = None"
| "parse_items [c] = (if c = c_dollar then Some [] else None)"
| "parse_items (c # d # ds) =
     (if c = c_backslash then
        (if is_syntax_char d then
           (case ds of
              [] \<Rightarrow> None
            | q # qs \<Rightarrow>
                if q = c_star then map_option ((#) (Many (Lit d))) (parse_items qs)
                else map_option ((#) (One (Lit d))) (parse_items ds))
         else None)
      else if is_syntax_char c \<and> c \<noteq> c_dot then None
      else
        (let a = (if c = c_dot then AnyChar else Lit c) in
         if d = c_star then map_option ((#) (Many a)) (parse_items ds)
         else map_option ((#) (One a)) (parse_items (d # ds))))"

definition regexp_compile :: "jsstring \<Rightarrow> item list option" where
  "regexp_compile source =
     (case source of
        [] \<Rightarrow> None
      | c # cs \<Rightarrow> if c = c_caret then parse_items cs else None)"

fun match_atom :: "atom \<Rightarrow> code_unit \<Rightarrow> bool" where
  "match_atom (Lit d) c = (c = d)"
| "match_atom AnyChar c = (\<not> is_line_terminator c)"

text \<open>
  Backtracking match of the items against the whole rest of the input (the source ends
  in \<open>$\<close> and there is no \<open>m\<close> flag). A starred item is greedy: it first tries to take
  one more code unit.
\<close>

fun match_items :: "item list \<Rightarrow> jsstring \<Rightarrow> bool" where
  "match_items [] s = (s = [])"
| "match_items (One a # r) [] = False"
| "match_items (One a # r) (c # cs) = (match_atom a c \<and> match_items r cs)"
| "match_items (Many a # r) [] = match_items r []"
| "match_items (Many a # r) (c # cs) =
     ((match_atom a c \<and> match_items (Many a # r) cs) \<or> match_items r (c # cs))"

text \<open>
  \<open>matchGlobPattern\<close> of config.ts. The result is \<open>None\<close> where the constructed source is
  outside the modelled fragment of \<open>RegExp\<close>.
\<close>

definition matchGlobPattern :: "jsstring \<Rightarrow> jsstring \<Rightarrow> bool option" where
  "matchGlobPattern str pattern =
     (if str = pattern then Some True
      else
        (case regexp_compile ([c_caret] @ regexPattern pattern @ [c_dollar]) of
           None \<Rightarrow> None
         | Some regex \<Rightarrow> Some (match_items regex str)))"

text \<open>\<open>matchesExcludePattern\<close>: the first pattern that matches decides.\<close>

fun matchesExcludePattern :: "jsstring \<Rightarrow> jsstring list \<Rightarrow> bool option" where
  "matchesExcludePattern branchName [] = Some False"
| "matchesExcludePattern branchName (pattern # patterns) =
     (case matchGlobPattern branchName pattern of
        None \<Rightarrow> None
      | Some True \<Rightarrow> Some True
      | Some False \<Rightarrow> matchesExcludePattern branchName patterns)"

subsection \<open>The glob contract of the specification\<close>

text \<open>
  The contract in the specification's words: the whole name is produced by the pattern,
  where \<open>*\<close> stands for zero or more arbitrary characters, \<open>?\<close> for exactly one arbitrary
  character, and every other character for itself.
\<close>

inductive glob_produces :: "jsstring \<Rightarrow> jsstring \<Rightarrow> bool" where
  gp_empty: "glob_produces [] []"
| gp_star: "glob_produces ps n \<Longrightarrow> glob_produces (c_star # ps) (w @ n)"
| gp_question: "glob_produces ps n \<Longrightarrow> glob_produces (c_question # ps) (x # n)"
| gp_literal: "c \<noteq> c_star \<Longrightarrow> c \<noteq> c_question \<Longrightarrow> glob_produces ps n
                 \<Longrightarrow> glob_produces (c # ps) (c # n)"


section \<open>Platform string functions used by the program\<close>

text \<open>
  WhiteSpace and LineTerminator of ECMAScript: what \<open>String.prototype.trim\<close> removes at
  both ends and \<open>parseInt\<close> skips in front.
\<close>

definition is_white_space :: "code_unit \<Rightarrow> bool" where
  "is_white_space c =
     (c = 0x09 \<or> c = 0x0B \<or> c = 0x0C \<or> c = 0x20 \<or> c = 0xA0 \<or> c = 0xFEFF \<or> c = 0x1680
      \<or> (0x2000 \<le> c \<and> c \<le> 0x200A) \<or> c = 0x202F \<or> c = 0x205F \<or> c = 0x3000
      \<or> is_line_terminator c)"

definition trim :: "jsstring \<Rightarrow> jsstring" where
  "trim s = rev (dropWhile is_white_space (rev (dropWhile is_white_space s)))"

text \<open>\<open>s.startsWith(p)\<close>\<close>

definition startsWith :: "jsstring \<Rightarrow> jsstring \<Rightarrow> bool" where
  "startsWith s p = (take (length p) s = p)"

text \<open>
  \<open>s.replace(pat, rep)\<close> with a string pattern: the first occurrence only. The program
  calls it with the replacement \<open>""\<close>, which has no \<open>$\<close> pattern to expand.
\<close>

fun replace_first :: "jsstring \<Rightarrow> jsstring \<Rightarrow> jsstring \<Rightarrow> jsstring" where
  "replace_first [] pat rep = (if pat = [] then rep else [])"
| "replace_first (c # cs) pat rep =
     (if startsWith (c # cs) pat then rep @ drop (length pat) (c # cs)
      else c # replace_first cs pat rep)"

text \<open>
  \<open>s.toLowerCase()\<close> maps every code point by its Unicode lower-case mapping. The A to Z
  range, U+0130 (to \<open>i\<close> and U+0307) and U+212A KELVIN SIGN (to \<open>k\<close>) are the only code points
  whose image holds an ASCII letter. Every other ASCII code unit is its own image; every
  other non-ASCII code point has a non-ASCII image, which this model does not tabulate and
  leaves in place. A comparison of the result with an ASCII string is decided as in the
  program.
\<close>

definition lower_unit :: "code_unit \<Rightarrow> jsstring" where
  "lower_unit c =
     (if 0x41 \<le> c \<and> c \<le> 0x5A then [c + 0x20]
      else if c = 0x130 then [0x69, 0x307]
      else if c = 0x212A then [0x6B]
      else [c])"

definition toLowerCase :: "jsstring \<Rightarrow> jsstring" where
  "toLowerCase s = concat (map lower_unit s)"

text \<open>
  \<open>parseInt(s, 10)\<close>: skip leading white space, read an optional sign, then the longest
  run of decimal digits; no digit gives \<open>NaN\<close>, here \<open>None\<close>. Otherwise the result is the
  Number value of the integer read: an integer-valued double or an infinity.
\<close>

datatype js_integer = Finite int | PosInfinity | NegInfinity

text \<open>
  The Number value of a non-negative integer: the nearest double, a tie going to the even
  significand, and \<open>Infinity\<close> once the rounded value reaches \<open>2^1024\<close>. Below \<open>2^53\<close> it is
  the integer itself. \<open>excess_bits n\<close> is the number of low bits that do not fit the 53-bit
  significand. (Node's V8 rounds the whole digit string in this way; ECMAScript would let
  an implementation ignore the digits after the twentieth.)
\<close>

function excess_bits :: "int \<Rightarrow> nat" where
  "excess_bits n = (if n < 2 ^ 53 then 0 else Suc (excess_bits (n div 2)))"
  by pat_completeness auto
termination
  by (relation "measure nat") auto

definition to_double :: "int \<Rightarrow> js_integer" where
  "to_double n =
     (let k = excess_bits n;
          q = n div 2 ^ k;
          r = n mod 2 ^ k;
          q' = (if 2 * r > 2 ^ k \<or> (2 * r = 2 ^ k \<and> odd q) then q + 1 else q);
          v = q' * 2 ^ k
      in if v \<ge> 2 ^ 1024 then PosInfinity else Finite v)"

text \<open>The sign of the result; \<open>-0\<close> and \<open>0\<close> are one value here.\<close>

fun negate :: "js_integer \<Rightarrow> js_integer" where
  "negate (Finite v) = Finite (- v)"
| "negate PosInfinity = NegInfinity"
| "negate NegInfinity = PosInfinity"

definition is_digit :: "code_unit \<Rightarrow> bool" where
  "is_digit c = (0x30 \<le> c \<and> c \<le> 0x39)"

definition digits_value :: "jsstring \<Rightarrow> int" where
  "digits_value z = foldl (\<lambda>a c. a * 10 + (uint c - 48)) 0 z"

definition parseInt10 :: "jsstring \<Rightarrow> js_integer option" where
  "parseInt10 s =
     (let S = dropWhile is_white_space s;
          negative = (case S of [] \<Rightarrow> False | c # _ \<Rightarrow> c = of_char CHR ''-'');
          S' = (case S of [] \<Rightarrow> []
                | c # r \<Rightarrow> if c = of_char CHR ''-'' \<or> c = of_char CHR ''+'' then r else S);
          Z = takeWhile is_digit S'
      in if Z = [] then None
         else Some (if negative then negate (to_double (digits_value Z))
                    else to_double (digits_value Z)))"

text \<open>The string iterator (used by a spread): one string per code point.\<close>

definition is_high_surrogate :: "code_unit \<Rightarrow> bool" where
  "is_high_surrogate c = (0xD800 \<le> c \<and> c \<le> 0xDBFF)"

definition is_low_surrogate :: "code_unit \<Rightarrow> bool" where
  "is_low_surrogate c = (0xDC00 \<le> c \<and> c \<le> 0xDFFF)"

fun code_points :: "jsstring \<Rightarrow> jsstring list" where
  "code_points [] = []"
| "code_points [c] = [[c]]"
| "code_points (c # d # r) =
     (if is_high_surrogate c \<and> is_low_surrogate d then [c, d] # code_points r
      else [c] # code_points (d # r))"

section \<open>cli.ts: parseArgs\<close>

record CliArgs =
  repoPath :: "jsstring option"
  configPath :: "jsstring option"
  excludePatterns_cli :: "jsstring list"
  staleDays_cli :: "js_integer option"
  help_cli :: bool

definition initial_args :: CliArgs where
  "initial_args = \<lparr>repoPath = None, configPath = None, excludePatterns_cli = [],
                    staleDays_cli = None, help_cli = False\<rparr>"

text \<open>\<open>parseInt(args[++i], 10)\<close>: an index past the end reads \<open>undefined\<close>, whose string is "undefined".\<close>

definition parseInt_arg :: "jsstring option \<Rightarrow> js_integer option" where
  "parseInt_arg a = (case a of None \<Rightarrow> parseInt10 (ascii ''undefined'') | Some s \<Rightarrow> parseInt10 s)"

text \<open>Truthiness of an optional string: \<open>undefined\<close> and \<open>""\<close> are falsy.\<close>

definition truthy :: "jsstring option \<Rightarrow> bool" where
  "truthy v = (case v of None \<Rightarrow> False | Some s \<Rightarrow> s \<noteq> [])"

text \<open>
  The \<open>for\<close> loop of \<open>parseArgs\<close> over \<open>process.argv.slice(2)\<close>. A flag that takes a value
  consumes the next argument (\<open>args[++i]\<close>), which is \<open>undefined\<close> when the flag is last.
\<close>

fun parseArgs_loop :: "CliArgs \<Rightarrow> jsstring list \<Rightarrow> CliArgs" where
  "parseArgs_loop result [] = result"
| "parseArgs_loop result (arg # rest) =
     (if arg = ascii ''-h'' \<or> arg = ascii ''--help'' then
        parseArgs_loop (result\<lparr>help_cli := True\<rparr>) rest
      else if arg = ascii ''-p'' \<or> arg = ascii ''--path'' then
        (case rest of
           [] \<Rightarrow> result\<lparr>repoPath := None\<rparr>
         | v # rest' \<Rightarrow> parseArgs_loop (result\<lparr>repoPath := Some v\<rparr>) rest')
      else if arg = ascii ''-c'' \<or> arg = ascii ''--config'' then
        (case rest of
           [] \<Rightarrow> result\<lparr>configPath := None\<rparr>
         | v # rest' \<Rightarrow> parseArgs_loop (result\<lparr>configPath := Some v\<rparr>) rest')
      else if arg = ascii ''-e'' \<or> arg = ascii ''--exclude'' then
        (case rest of
           [] \<Rightarrow> result
         | pattern # rest' \<Rightarrow>
             parseArgs_loop
               (if pattern \<noteq> []
                then result\<lparr>excludePatterns_cli := excludePatterns_cli result @ [pattern]\<rparr>
                else result) rest')
      else if arg = ascii ''-s'' \<or> arg = ascii ''--stale-days'' then
        (case rest of
           [] \<Rightarrow>
             (case parseInt_arg None of
                None \<Rightarrow> result
              | Some days \<Rightarrow> result\<lparr>staleDays_cli := Some days\<rparr>)
         | v # rest' \<Rightarrow>
             parseArgs_loop
               (case parseInt_arg (Some v) of
                  None \<Rightarrow> result
                | Some days \<Rightarrow> result\<lparr>staleDays_cli := Some days\<rparr>) rest')
      else
        parseArgs_loop
          (if \<not> startsWith arg (ascii ''-'') \<and> \<not> truthy (repoPath result)
           then result\<lparr>repoPath := Some arg\<rparr> else result) rest)"

text \<open>\<open>parseArgs\<close>: with the help flag the process prints the usage and exits with status 0.\<close>

datatype parse_outcome = Exited int | Parsed CliArgs

definition parseArgs :: "jsstring list \<Rightarrow> parse_outcome" where
  "parseArgs args =
     (let result = parseArgs_loop initial_args args
      in if help_cli result then Exited 0 else Parsed result)"


section \<open>config.ts: loadConfig\<close>

text \<open>
  What \<open>JSON.parse\<close> returns. A number is kept as the rational its literal denotes. An
  object is its list of members in source order; a later duplicate key wins.
\<close>

datatype json =
    JNull
  | JBool bool
  | JNum rat
  | JStr jsstring
  | JArr "json list"
  | JObj "(jsstring \<times> json) list"

text \<open>
  The cast \<open>as Partial<Config>\<close> checks nothing at run time, so the fields of the returned
  object hold whatever values the file gave: the model types them as JSON values.
\<close>

record Config =
  excludePatterns :: "json list"
  staleDays :: json
  protectedBranches :: "json list"

definition builtin_protected :: "jsstring list" where
  "builtin_protected =
     [ascii ''main'', ascii ''master'', ascii ''dev'', ascii ''develop'', ascii ''development'',
      ascii ''stage'', ascii ''staging'', ascii ''prod'', ascii ''production'', ascii ''preview'',
      ascii ''release'']"

definition DEFAULT_CONFIG :: Config where
  "DEFAULT_CONFIG =
     \<lparr>excludePatterns = [], staleDays = JNum 30, protectedBranches = map JStr builtin_protected\<rparr>"

definition CONFIG_FILE_NAMES :: "jsstring list" where
  "CONFIG_FILE_NAMES =
     [ascii ''.branchcleanerrc'', ascii ''.branchcleanerrc.json'', ascii ''.branchcleaner.json'',
      ascii ''branchcleaner.config.json'']"

text \<open>
  The platform as \<open>loadConfig\<close> sees it: the working directory, \<open>fs.existsSync\<close>,
  \<open>fs.readFileSync\<close> (\<open>None\<close> when it throws), \<open>path.resolve\<close>, \<open>path.join\<close> and
  \<open>JSON.parse\<close> (\<open>None\<close> when it throws a SyntaxError). \<open>process.cwd()\<close>, \<open>path.resolve\<close>,
  \<open>path.join\<close> and \<open>fs.existsSync\<close> are taken as returning normally.
\<close>

record platform =
  cwd :: jsstring
  existsSync :: "jsstring \<Rightarrow> bool"
  readFileSync :: "jsstring \<Rightarrow> jsstring option"
  path_resolve :: "jsstring \<Rightarrow> jsstring"
  path_join :: "jsstring \<Rightarrow> jsstring \<Rightarrow> jsstring"
  JSON_parse :: "jsstring \<Rightarrow> json option"

datatype config_exn = ReadFailed | JsonSyntaxError | TypeError

datatype log_entry =
    Warn_not_found jsstring
  | Loaded_from jsstring
  | Warn_parse_failed config_exn

text \<open>
  Reading one of the properties \<open>excludePatterns\<close>, \<open>staleDays\<close>, \<open>protectedBranches\<close> of the
  parsed value: a TypeError on \<open>null\<close>, the member of an object, and \<open>undefined\<close> (here
  \<open>None\<close>) on anything else, since no prototype defines these three names.
\<close>

fun get_property :: "json \<Rightarrow> jsstring \<Rightarrow> config_exn + json option" where
  "get_property JNull key = Inl TypeError"
| "get_property (JObj members) key = Inr (map_of (rev members) key)"
| "get_property v key = Inr None"

text \<open>\<open>v ?? d\<close>\<close>

fun nullish :: "json option \<Rightarrow> json \<Rightarrow> json" where
  "nullish None d = d"
| "nullish (Some JNull) d = d"
| "nullish (Some v) d = v"

text \<open>
  \<open>...v\<close> inside an array literal: the elements of an array, the code points of a
  string, and a TypeError for a value that is not iterable.
\<close>

fun spread :: "json \<Rightarrow> config_exn + json list" where
  "spread (JArr xs) = Inr xs"
| "spread (JStr s) = Inr (map JStr (code_points s))"
| "spread v = Inl TypeError"

text \<open>The search of the conventional file names in the working directory.\<close>

fun search_config :: "platform \<Rightarrow> jsstring list \<Rightarrow> jsstring option" where
  "search_config env [] = None"
| "search_config env (fileName # fileNames) =
     (let filePath = path_join env (cwd env) fileName
      in if existsSync env filePath then Some filePath else search_config env fileNames)"

text \<open>
  The object literal of the \<open>return\<close> inside the \<open>try\<close> block; its members are evaluated
  in source order, and the first exception ends the evaluation.
\<close>

definition build_config :: "json \<Rightarrow> config_exn + Config" where
  "build_config userConfig =
     (case get_property userConfig (ascii ''excludePatterns'') of
        Inl e \<Rightarrow> Inl e
      | Inr ep \<Rightarrow>
     (case spread (nullish ep (JArr [])) of
        Inl e \<Rightarrow> Inl e
      | Inr userExclude \<Rightarrow>
     (case get_property userConfig (ascii ''staleDays'') of
        Inl e \<Rightarrow> Inl e
      | Inr sd \<Rightarrow>
     (case get_property userConfig (ascii ''protectedBranches'') of
        Inl e \<Rightarrow> Inl e
      | Inr pb \<Rightarrow>
     (case spread (nullish pb (JArr [])) of
        Inl e \<Rightarrow> Inl e
      | Inr userProtected \<Rightarrow>
          Inr \<lparr>excludePatterns = protectedBranches DEFAULT_CONFIG @ userExclude,
               staleDays = nullish sd (staleDays DEFAULT_CONFIG),
               protectedBranches = protectedBranches DEFAULT_CONFIG @ userProtected\<rparr>)))))"

text \<open>The \<open>try\<close> block: the console output so far, and the exception or the returned object.\<close>

definition loadConfig_try :: "platform \<Rightarrow> jsstring \<Rightarrow> log_entry list \<times> (config_exn + Config)" where
  "loadConfig_try env configPath' =
     (case readFileSync env configPath' of
        None \<Rightarrow> ([], Inl ReadFailed)
      | Some content \<Rightarrow>
          (case JSON_parse env content of
             None \<Rightarrow> ([], Inl JsonSyntaxError)
           | Some userConfig \<Rightarrow> ([Loaded_from configPath'], build_config userConfig)))"

text \<open>
  The first part of \<open>loadConfig\<close>: \<open>Inl\<close> is the early return for a custom path that does
  not exist, \<open>Inr\<close> the value of \<open>configPath\<close> after the \<open>if\<close>.
\<close>

definition locate_config :: "platform \<Rightarrow> jsstring option \<Rightarrow> jsstring + jsstring option" where
  "locate_config env customPath =
     (case (if truthy customPath then customPath else None) of
        Some p \<Rightarrow>
          (let configPath' = path_resolve env p
           in if \<not> existsSync env configPath' then Inl configPath' else Inr (Some configPath'))
      | None \<Rightarrow> Inr (search_config env CONFIG_FILE_NAMES))"

text \<open>
  \<open>loadConfig\<close>. \<open>Inl\<close> would be an exception leaving the function (a rejected promise);
  \<open>Inr\<close> carries the console output and the returned object.
\<close>

definition loadConfig :: "platform \<Rightarrow> jsstring option \<Rightarrow> config_exn + log_entry list \<times> Config" where
  "loadConfig env customPath =
     (case locate_config env customPath of
        Inl missing \<Rightarrow> Inr ([Warn_not_found missing], DEFAULT_CONFIG)
      | Inr None \<Rightarrow> Inr ([], DEFAULT_CONFIG)
      | Inr (Some configPath') \<Rightarrow>
          if configPath' = [] then Inr ([], DEFAULT_CONFIG)
          else
            (case loadConfig_try env configPath' of
               (logs, Inr config) \<Rightarrow> Inr (logs, config)
             | (logs, Inl error) \<Rightarrow> Inr (logs @ [Warn_parse_failed error], DEFAULT_CONFIG)))"

section \<open>index.ts: the resolution of the settings in runAgent\<close>

text \<open>
  The first lines of \<open>runAgent\<close>: the command line, the configuration, and the three
  effective settings. \<open>args.staleDays ?? config.staleDays\<close> is either the number read from
  the command line or the value the configuration holds.
\<close>

datatype threshold = From_cli js_integer | From_config json

record settings =
  effective_excludePatterns :: "json list"
  effective_staleDays :: threshold
  effective_repoPath :: jsstring

datatype run_stop = Process_exit int | Rejected config_exn

definition resolve_staleDays :: "CliArgs \<Rightarrow> Config \<Rightarrow> threshold" where
  "resolve_staleDays args config =
     (case staleDays_cli args of
        Some days \<Rightarrow> From_cli days
      | None \<Rightarrow> From_config (staleDays config))"

definition runAgent_settings :: "platform \<Rightarrow> jsstring list \<Rightarrow> run_stop + log_entry list \<times> settings" where
  "runAgent_settings env argv =
     (case parseArgs argv of
        Exited status \<Rightarrow> Inl (Process_exit status)
      | Parsed args \<Rightarrow>
          (case loadConfig env (configPath args) of
             Inl e \<Rightarrow> Inl (Rejected e)
           | Inr (logs, config) \<Rightarrow>
               Inr (logs,
                 \<lparr>effective_excludePatterns =
                    excludePatterns config @ map JStr (excludePatterns_cli args),
                  effective_staleDays = resolve_staleDays args config,
                  effective_repoPath =
                    (case repoPath args of None \<Rightarrow> cwd env | Some p \<Rightarrow> p)\<rparr>)))"

text \<open>
  The resolution as the specification words it: the file's value when present and a
  valid integer, else 30; replaced by the command-line value exactly when that is given
  and is a valid non-negative integer.
\<close>

definition valid_integer :: "json \<Rightarrow> bool" where
  "valid_integer v = (case v of JNum q \<Rightarrow> of_int \<lfloor>q\<rfloor> = q | _ \<Rightarrow> False)"

definition nonneg_integer_text :: "jsstring \<Rightarrow> bool" where
  "nonneg_integer_text s = (s \<noteq> [] \<and> list_all is_digit s)"

definition spec_staleDays :: "json option \<Rightarrow> jsstring option \<Rightarrow> threshold" where
  "spec_staleDays fileValue cliValue =
     (let configured =
        (case fileValue of
           None \<Rightarrow> JNum 30
         | Some v \<Rightarrow> if valid_integer v then v else JNum 30)
      in case cliValue of
           None \<Rightarrow> From_config configured
         | Some s \<Rightarrow>
             if nonneg_integer_text s then From_cli (to_double (digits_value s))
             else From_config configured)"

section \<open>index.ts: the git tools and the confirmation\<close>

text \<open>
  \<open>execSync\<close> runs a command in a directory. Its outcome is the standard output, an error
  object with a \<open>stderr\<close> property, an \<open>Error\<close> without one (only its message matters), or a
  thrown value that is no \<open>Error\<close>. The shell answers from the history of the commands run
  so far, so a deletion can change later answers.
\<close>

datatype exec_outcome =
    Stdout jsstring
  | Throws_with_stderr jsstring
  | Throws_error jsstring
  | Throws_other

type_synonym invocation = "jsstring \<times> jsstring"
type_synonym shell = "invocation list \<Rightarrow> invocation \<Rightarrow> exec_outcome"

datatype thrown = Error jsstring | NonError

text \<open>\<open>execGit\<close>: the trimmed output, or the exception; the command is added to the trace.\<close>

definition execGit ::
  "shell \<Rightarrow> jsstring \<Rightarrow> jsstring \<Rightarrow> invocation list \<Rightarrow> (thrown + jsstring) \<times> invocation list" where
  "execGit sh command cwd' trace =
     ((case sh trace (command, cwd') of
         Stdout out \<Rightarrow> Inr (trim out)
       | Throws_with_stderr err \<Rightarrow> Inl (Error (ascii ''Git command failed: '' @ err))
       | Throws_error msg \<Rightarrow> Inl (Error msg)
       | Throws_other \<Rightarrow> Inl NonError),
      trace @ [(command, cwd')])"

text \<open>\<open>error instanceof Error ? error.message : "Unknown error"\<close>\<close>

fun error_message :: "thrown \<Rightarrow> jsstring" where
  "error_message (Error msg) = msg"
| "error_message NonError = ascii ''Unknown error''"

text \<open>The payload of a deletion tool: \<open>{success: true, message}\<close> or \<open>{success: false, error}\<close>.\<close>

datatype delete_payload = Success jsstring | Failure jsstring

definition current_branch_command :: jsstring where
  "current_branch_command = ascii ''git rev-parse --abbrev-ref HEAD''"

definition delete_command :: "bool \<Rightarrow> jsstring \<Rightarrow> jsstring" where
  "delete_command force branch_name =
     ascii ''git branch '' @ (if force then ascii ''-D'' else ascii ''-d'') @ ascii '' '' @ branch_name"

definition refusal_message :: jsstring where
  "refusal_message = ascii ''Cannot delete the currently checked out branch''"

text \<open>
  The handler of \<open>delete_local_branch\<close> (the same in both versions of the tool server).
  The query of the current branch is outside the \<open>try\<close>: its exception leaves the handler.
\<close>

definition delete_local_branch ::
  "shell \<Rightarrow> jsstring \<Rightarrow> jsstring \<Rightarrow> bool option \<Rightarrow> invocation list
     \<Rightarrow> (thrown + delete_payload) \<times> invocation list" where
  "delete_local_branch sh repoPath' branch_name force trace =
     (case execGit sh current_branch_command repoPath' trace of
        (Inl e, trace1) \<Rightarrow> (Inl e, trace1)
      | (Inr currentBranch, trace1) \<Rightarrow>
          if currentBranch = branch_name then (Inr (Failure refusal_message), trace1)
          else
            (case execGit sh
                    (delete_command (case force of None \<Rightarrow> False | Some f \<Rightarrow> f) branch_name)
                    repoPath' trace1 of
               (Inr out, trace2) \<Rightarrow>
                 (Inr (Success (ascii ''Local branch '' @ [0x27] @ branch_name @ [0x27]
                                @ ascii '' deleted successfully'')), trace2)
             | (Inl e, trace2) \<Rightarrow> (Inr (Failure (error_message e)), trace2)))"

definition verify_command :: "jsstring \<Rightarrow> jsstring" where
  "verify_command ref = ascii ''git rev-parse --verify '' @ ref"

definition symbolic_ref_command :: jsstring where
  "symbolic_ref_command = ascii ''git symbolic-ref refs/remotes/origin/HEAD''"

text \<open>The handler of \<open>get_main_branch\<close>: the nested \<open>try\<close> blocks, outermost first.\<close>

definition get_main_branch ::
  "shell \<Rightarrow> jsstring \<Rightarrow> invocation list \<Rightarrow> jsstring \<times> invocation list" where
  "get_main_branch sh repoPath' trace =
     (case execGit sh (verify_command (ascii ''main'')) repoPath' trace of
        (Inr out, trace1) \<Rightarrow> (ascii ''main'', trace1)
      | (Inl e, trace1) \<Rightarrow>
          (case execGit sh (verify_command (ascii ''master'')) repoPath' trace1 of
             (Inr out, trace2) \<Rightarrow> (ascii ''master'', trace2)
           | (Inl e, trace2) \<Rightarrow>
               (case execGit sh symbolic_ref_command repoPath' trace2 of
                  (Inr remoteHead, trace3) \<Rightarrow>
                    (replace_first remoteHead (ascii ''refs/remotes/origin/'') [], trace3)
                | (Inl e, trace3) \<Rightarrow> (ascii ''main'', trace3))))"

text \<open>
  \<open>askUserConfirmation\<close> (the same test in both versions): the answer typed at the prompt
  decides.
\<close>

definition askUserConfirmation :: "jsstring \<Rightarrow> bool" where
  "askUserConfirmation answer =
     (toLowerCase answer = ascii ''yes'' \<or> toLowerCase answer = ascii ''y'')"


section \<open>Auxiliary definitions for the proofs\<close>

text \<open>What the three replacements make of one pattern character.\<close>

definition piece :: "code_unit \<Rightarrow> jsstring" where
  "piece c = (if is_special c then [c_backslash, c]
              else if c = c_star then [c_dot, c_star]
              else if c = c_question then [c_dot] else [c])"

text \<open>The item the compiled expression holds for one pattern character.\<close>

definition glob_item :: "code_unit \<Rightarrow> item" where
  "glob_item c = (if c = c_star then Many AnyChar
                  else if c = c_question then One AnyChar else One (Lit c))"


text \<open>The two words \<open>yes\<close> and \<open>y\<close> in every letter case.\<close>

definition yes_answers :: "jsstring list" where
  "yes_answers =
     [ascii ''yes'', ascii ''yeS'', ascii ''yEs'', ascii ''yES'',
      ascii ''Yes'', ascii ''YeS'', ascii ''YEs'', ascii ''YES'', ascii ''y'', ascii ''Y'']"

text \<open>A working directory \<open>/repo\<close> that holds the file \<open>.branchcleanerrc\<close>, whose content parses to the given value (or fails to parse).\<close>

definition example_platform :: "json option \<Rightarrow> platform" where
  "example_platform parsed =
     \<lparr>cwd = ascii ''/repo'',
      existsSync = (\<lambda>p. p = ascii ''/repo/.branchcleanerrc''),
      readFileSync = (\<lambda>p. if p = ascii ''/repo/.branchcleanerrc'' then Some (ascii ''text'') else None),
      path_resolve = (\<lambda>p. ascii ''/repo/'' @ p),
      path_join = (\<lambda>d f. d @ ascii ''/'' @ f),
      JSON_parse = (\<lambda>content. parsed)\<rparr>"

text \<open>A working directory with no file at all.\<close>

definition empty_platform :: platform where
  "empty_platform =
     \<lparr>cwd = ascii ''/repo'',
      existsSync = (\<lambda>p. False),
      readFileSync = (\<lambda>p. None),
      path_resolve = (\<lambda>p. ascii ''/repo/'' @ p),
      path_join = (\<lambda>d f. d @ ascii ''/'' @ f),
      JSON_parse = (\<lambda>content. None)\<rparr>"

text \<open>
  A working directory in which only \<open>my.json\<close> exists, with the content \<open>{"staleDays": 45}\<close>.
\<close>

definition custom_file_platform :: platform where
  "custom_file_platform =
     \<lparr>cwd = ascii ''/repo'',
      existsSync = (\<lambda>p. p = ascii ''/repo/my.json''),
      readFileSync = (\<lambda>p. if p = ascii ''/repo/my.json'' then Some (ascii ''text'') else None),
      path_resolve = (\<lambda>p. ascii ''/repo/'' @ p),
      path_join = (\<lambda>d f. d @ ascii ''/'' @ f),
      JSON_parse = (\<lambda>content. Some (JObj [(ascii ''staleDays'', JNum 45)]))\<rparr>"

text \<open>
  What git writes when asked to delete the branch that is checked out.
\<close>

definition git_refusal_stderr :: jsstring where
  "git_refusal_stderr =
     ascii ''error: cannot delete branch '' @ [0x27] @ ascii ''main'' @ [0x27]
     @ ascii '' used by worktree at '' @ [0x27] @ ascii ''/repo'' @ [0x27, 0x0A]"

text \<open>
  A repository at \<open>/repo\<close> with the branch \<open>main\<close> checked out and a tag that is also named
  \<open>main\<close>. \<open>git rev-parse --abbrev-ref HEAD\<close> prints the shortest unambiguous name, which is
  then \<open>heads/main\<close>; git itself refuses to delete the checked-out branch.
\<close>

definition tag_named_main_shell :: shell where
  "tag_named_main_shell trace call =
     (if fst call = ascii ''git rev-parse --abbrev-ref HEAD'' then Stdout (ascii ''heads/main'' @ [0x0A])
      else if fst call = ascii ''git branch -D main'' then Throws_with_stderr git_refusal_stderr
      else Throws_with_stderr (ascii ''fatal: not expected here''))"

text \<open>
  A repository with the branch \<open>main\<close> checked out and no other ref of that name.
\<close>

definition on_main_shell :: shell where
  "on_main_shell trace call =
     (if fst call = ascii ''git rev-parse --abbrev-ref HEAD'' then Stdout (ascii ''main'' @ [0x0A])
      else Throws_with_stderr (ascii ''fatal: not expected here''))"

text \<open>
  A shell that answers the listed commands with the listed output and fails on every
  other command.
\<close>

definition answering_shell :: "(jsstring \<times> jsstring) list \<Rightarrow> shell" where
  "answering_shell answers trace call =
     (case map_of answers (fst call) of
        Some out \<Rightarrow> Stdout out
      | None \<Rightarrow> Throws_with_stderr (ascii ''fatal: Needed a single revision'' @ [0x0A]))"

text \<open>
  The member of an object under a key, \<open>undefined\<close> for every other value.
\<close>

definition member :: "json \<Rightarrow> jsstring \<Rightarrow> json option" where
  "member v key = (case v of JObj members \<Rightarrow> map_of (rev members) key | _ \<Rightarrow> None)"

text \<open>
  The values \<open>v\<close> for which \<open>...(v ?? [])\<close> does not throw: absent, \<open>null\<close>, an array or a string.
\<close>

definition spreadable :: "json option \<Rightarrow> bool" where
  "spreadable v =
     (case v of
        None \<Rightarrow> True
      | Some JNull \<Rightarrow> True
      | Some (JArr xs) \<Rightarrow> True
      | Some (JStr s) \<Rightarrow> True
      | Some _ \<Rightarrow> False)"

text \<open>
  What a parsed file makes of \<open>config.staleDays\<close>: its \<open>staleDays\<close> member when that is present
  and not \<open>null\<close> and the two list members can be spread; 30 when the member is missing or
  \<open>null\<close>, and 30 as well when building the object throws and the defaults are returned.
\<close>

definition file_staleDays :: "json \<Rightarrow> json" where
  "file_staleDays userConfig =
     (if userConfig \<noteq> JNull
         \<and> spreadable (member userConfig (ascii ''excludePatterns''))
         \<and> spreadable (member userConfig (ascii ''protectedBranches''))
      then nullish (member userConfig (ascii ''staleDays'')) (JNum 30)
      else JNum 30)"

section \<open>The glob matcher: what the constructed expression accepts\<close>

lemma escapeSpecial_Cons:
  "escapeSpecial (c # s) = (if is_special c then [c_backslash, c] else [c]) @ escapeSpecial s"
  by (simp add: escapeSpecial_def)

lemma replaceStar_append: "replaceStar (xs @ ys) = replaceStar xs @ replaceStar ys"
  by (simp add: replaceStar_def)

lemma replaceQuestion_append: "replaceQuestion (xs @ ys) = replaceQuestion xs @ replaceQuestion ys"
  by (simp add: replaceQuestion_def)

lemma special_facts:
  "is_special c_dot" "is_special c_caret" "is_special c_dollar" "is_special c_backslash"
  "\<not> is_special c_star" "\<not> is_special c_question"
  by (simp_all add: is_special_def special_chars_def ascii_def c_dot_def c_caret_def
      c_dollar_def c_backslash_def c_star_def c_question_def)

lemma char_distinct:
  "c_star \<noteq> c_question" "c_star \<noteq> c_dot" "c_star \<noteq> c_backslash" "c_star \<noteq> c_dollar"
  "c_question \<noteq> c_dot" "c_question \<noteq> c_backslash" "c_question \<noteq> c_dollar"
  "c_dot \<noteq> c_backslash" "c_dot \<noteq> c_dollar" "c_backslash \<noteq> c_dollar"
  by (simp_all add: c_dot_def c_dollar_def c_backslash_def c_star_def c_question_def)

lemma regexPattern_Nil: "regexPattern [] = []"
  by (simp add: regexPattern_def escapeSpecial_def replaceStar_def replaceQuestion_def)

lemma regexPattern_Cons: "regexPattern (c # p) = piece c @ regexPattern p"
  using special_facts char_distinct
  by (auto simp add: regexPattern_def escapeSpecial_Cons replaceStar_append replaceQuestion_append piece_def)
     (auto simp add: replaceStar_def replaceQuestion_def)

lemma glob_item_simps:
  "glob_item c_star = Many AnyChar"
  "glob_item c_question = One AnyChar"
  "c \<noteq> c_star \<Longrightarrow> c \<noteq> c_question \<Longrightarrow> glob_item c = One (Lit c)"
  using char_distinct by (simp_all add: glob_item_def)

lemma regexPattern_head:
  "\<exists>x xs. regexPattern p @ [c_dollar] = x # xs \<and> x \<noteq> c_star"
  using char_distinct special_facts
  by (cases p) (auto simp add: regexPattern_Nil regexPattern_Cons piece_def)

lemma parse_items_regexPattern:
  "parse_items (regexPattern p @ [c_dollar]) = Some (map glob_item p)"
proof (induction p)
  case Nil
  then show ?case by (simp add: regexPattern_Nil)
next
  case (Cons c p)
  obtain x xs where r: "regexPattern p @ [c_dollar] = x # xs" and x: "x \<noteq> c_star"
    using regexPattern_head by blast
  from Cons r have ih: "parse_items (x # xs) = Some (map glob_item p)" by simp
  show ?case
    using special_facts char_distinct x ih
    by (auto simp add: regexPattern_Cons piece_def r glob_item_def is_syntax_char_def)
qed


lemma regexp_compile_regexPattern:
  "regexp_compile ([c_caret] @ regexPattern p @ [c_dollar]) = Some (map glob_item p)"
  by (simp add: regexp_compile_def parse_items_regexPattern)

lemma match_Many_skip: "match_items r n \<Longrightarrow> match_items (Many a # r) n"
  by (cases n) simp_all

lemma match_Many_prefix:
  "match_items r n \<Longrightarrow> \<forall>x\<in>set w. match_atom a x \<Longrightarrow> match_items (Many a # r) (w @ n)"
  by (induction w) (simp_all add: match_Many_skip)

lemma match_Many_split:
  "match_items (Many a # r) n \<Longrightarrow> \<exists>w m. n = w @ m \<and> (\<forall>x\<in>set w. match_atom a x) \<and> match_items r m"
proof (induction n)
  case Nil
  then show ?case by simp
next
  case (Cons c cs)
  from Cons.prems consider
    (take) "match_atom a c" "match_items (Many a # r) cs" | (skip) "match_items r (c # cs)"
    by auto
  then show ?case
  proof cases
    case take
    then obtain w m where "cs = w @ m" "\<forall>x\<in>set w. match_atom a x" "match_items r m"
      using Cons.IH by blast
    with take(1) have "c # cs = (c # w) @ m \<and> (\<forall>x\<in>set (c # w). match_atom a x) \<and> match_items r m"
      by simp
    then show ?thesis by blast
  next
    case skip
    then have "c # cs = [] @ (c # cs) \<and> (\<forall>x\<in>set []. match_atom a x) \<and> match_items r (c # cs)"
      by simp
    then show ?thesis by blast
  qed
qed

lemma match_glob_sound:
  "match_items (map glob_item p) n \<Longrightarrow> glob_produces p n"
proof (induction p arbitrary: n)
  case Nil
  then show ?case by (simp add: gp_empty)
next
  case (Cons c ps)
  show ?case
  proof (cases "c = c_star")
    case True
    with Cons.prems have "match_items (Many AnyChar # map glob_item ps) n"
      by (simp add: glob_item_simps)
    then obtain w m where "n = w @ m" "match_items (map glob_item ps) m"
      using match_Many_split by blast
    with Cons.IH True show ?thesis by (auto intro: gp_star)
  next
    case False
    note ns = this
    show ?thesis
    proof (cases "c = c_question")
      case True
      with Cons.prems ns obtain x xs where "n = x # xs" "match_items (map glob_item ps) xs"
        by (cases n) (auto simp add: glob_item_simps)
      with Cons.IH True show ?thesis by (auto intro: gp_question)
    next
      case False
      with Cons.prems ns obtain xs where "n = c # xs" "match_items (map glob_item ps) xs"
        by (cases n) (auto simp add: glob_item_simps)
      with Cons.IH False ns show ?thesis by (auto intro: gp_literal)
    qed
  qed
qed

lemma match_glob_complete:
  "glob_produces p n \<Longrightarrow> \<forall>x\<in>set n. \<not> is_line_terminator x \<Longrightarrow> match_items (map glob_item p) n"
proof (induction rule: glob_produces.induct)
  case gp_empty
  then show ?case by simp
next
  case (gp_star ps n w)
  then have "match_items (map glob_item ps) n" "\<forall>x\<in>set w. match_atom AnyChar x"
    by simp_all
  then show ?case
    by (simp add: glob_item_simps match_Many_prefix)
next
  case (gp_question ps n x)
  then show ?case using char_distinct by (simp add: glob_item_simps)
next
  case (gp_literal c ps n)
  then show ?case by (simp add: glob_item_simps)
qed

lemma match_glob_self: "match_items (map glob_item p) p"
proof (induction p)
  case Nil
  then show ?case by simp
next
  case (Cons c p)
  have lt: "\<not> is_line_terminator c_star" "\<not> is_line_terminator c_question"
    by (simp_all add: is_line_terminator_def c_star_def c_question_def)
  show ?case
  proof (cases "c = c_star")
    case True
    from Cons have "match_items (Many AnyChar # map glob_item p) p"
      by (rule match_Many_skip)
    with True lt show ?thesis by (simp add: glob_item_simps)
  next
    case False
    note ns = this
    show ?thesis
    proof (cases "c = c_question")
      case True
      with Cons lt show ?thesis by (simp add: glob_item_simps)
    next
      case False
      with Cons ns show ?thesis by (simp add: glob_item_simps)
    qed
  qed
qed

lemma matchGlobPattern_items:
  "matchGlobPattern n p = Some (match_items (map glob_item p) n)"
proof (cases "n = p")
  case True
  then show ?thesis
    using match_glob_self [of p] by (simp add: matchGlobPattern_def)
next
  case False
  then show ?thesis
    unfolding matchGlobPattern_def regexp_compile_regexPattern by simp
qed

lemma match_glob_literal:
  "c_star \<notin> set p \<Longrightarrow> c_question \<notin> set p \<Longrightarrow> match_items (map glob_item p) n = (n = p)"
proof (induction p arbitrary: n)
  case Nil
  then show ?case by simp
next
  case (Cons c p)
  from Cons.prems have "c \<noteq> c_star" "c \<noteq> c_question"
    by auto
  then have c: "glob_item c = One (Lit c)"
    by (rule glob_item_simps)
  from Cons have ih: "\<And>m. match_items (map glob_item p) m = (m = p)"
    by simp
  show ?case
    by (cases n) (auto simp add: c ih)
qed

lemma matchGlobPattern_glob:
  assumes "\<forall>x\<in>set n. \<not> is_line_terminator x"
  shows "matchGlobPattern n p = Some (glob_produces p n)"
proof -
  have "match_items (map glob_item p) n = glob_produces p n"
    using match_glob_sound [of p n] match_glob_complete [of p n] assms by blast
  then show ?thesis by (simp add: matchGlobPattern_items)
qed

lemma matchesExcludePattern_items:
  "matchesExcludePattern branchName patterns
     = Some (list_ex (\<lambda>pattern. match_items (map glob_item pattern) branchName) patterns)"
proof (induction patterns)
  case Nil
  then show ?case by simp
next
  case (Cons pattern patterns)
  then show ?case
    by (cases "match_items (map glob_item pattern) branchName")
       (simp_all add: matchGlobPattern_items)
qed

text \<open>The examples of the specification: a literal dot is not a wildcard, \<open>?\<close> is one character.\<close>

lemma matchGlobPattern_examples:
  "matchGlobPattern (ascii ''feature-x'') (ascii ''feature-*'') = Some True"
  "matchGlobPattern (ascii ''feature'') (ascii ''feature-*'') = Some False"
  "matchGlobPattern (ascii ''release-1.2'') (ascii ''release-*'') = Some True"
  "matchGlobPattern (ascii ''release-1x2'') (ascii ''release-1.2'') = Some False"
  "matchGlobPattern (ascii ''feature/login/v2'') (ascii ''feature/*'') = Some True"
  "matchGlobPattern (ascii ''ab'') (ascii ''a?'') = Some True"
  "matchGlobPattern (ascii ''abc'') (ascii ''a?'') = Some False"
  "matchGlobPattern (ascii ''Main'') (ascii ''main'') = Some False"
  by code_simp+

section \<open>Claims about the glob matcher\<close>

text \<open>
  Claim C2. The claim: for every name and pattern the matcher returns true exactly when
  the whole name is produced by the pattern, with \<open>*\<close> for zero or more arbitrary
  characters and \<open>?\<close> for exactly one. The program builds its expression with \<open>.\<close> and no
  \<open>s\<close> flag, and \<open>.\<close> does not match a line terminator. For the branch name
  \<open>wip<U+2028>x\<close> (LINE SEPARATOR is allowed in a git ref name) and the pattern \<open>wip*\<close> the
  contract produces the name, and \<open>matchGlobPattern\<close> returns false. On names without a
  line terminator the two agree (lemma \<open>matchGlobPattern_glob\<close>).
\<close>

theorem matchGlobPattern_line_separator:
  "matchGlobPattern (ascii ''wip'' @ [0x2028] @ ascii ''x'') (ascii ''wip*'') = Some False
   \<and> glob_produces (ascii ''wip*'') (ascii ''wip'' @ [0x2028] @ ascii ''x'')"
proof
  show "matchGlobPattern (ascii ''wip'' @ [0x2028] @ ascii ''x'') (ascii ''wip*'') = Some False"
    by code_simp
next
  have ne: "of_char CHR ''w'' \<noteq> c_star" "of_char CHR ''w'' \<noteq> c_question"
     "of_char CHR ''i'' \<noteq> c_star" "of_char CHR ''i'' \<noteq> c_question"
     "of_char CHR ''p'' \<noteq> c_star" "of_char CHR ''p'' \<noteq> c_question"
    by (simp_all add: c_star_def c_question_def)
  have "glob_produces [c_star] (([0x2028] @ ascii ''x'') @ [])"
    by (intro gp_star gp_empty)
  then have "glob_produces [c_star] ([0x2028] @ ascii ''x'')"
    by simp
  then have "glob_produces (of_char CHR ''w'' # of_char CHR ''i'' # of_char CHR ''p'' # [c_star])
      (of_char CHR ''w'' # of_char CHR ''i'' # of_char CHR ''p'' # [0x2028] @ ascii ''x'')"
    by (intro gp_literal ne)
  then show "glob_produces (ascii ''wip*'') (ascii ''wip'' @ [0x2028] @ ascii ''x'')"
    by (simp add: ascii_def c_star_def)
qed

text \<open>
  Claim C3. For a pattern with no \<open>*\<close> and no \<open>?\<close>, \<open>matchGlobPattern n p\<close> is \<open>n = p\<close>, and
  the generic path (the compiled expression) gives the same answer as the equality
  shortcut; a name equal to the pattern always matches; the empty pattern matches only
  the empty name.
\<close>

theorem matchGlobPattern_no_wildcard:
  "(c_star \<notin> set p \<and> c_question \<notin> set p \<longrightarrow>
      matchGlobPattern n p = Some (n = p)
      \<and> (\<exists>regex. regexp_compile ([c_caret] @ regexPattern p @ [c_dollar]) = Some regex
                  \<and> match_items regex n = (n = p)))
   \<and> matchGlobPattern p p = Some True
   \<and> matchGlobPattern n [] = Some (n = [])"
proof (intro conjI impI)
  assume "c_star \<notin> set p \<and> c_question \<notin> set p"
  then have lit: "match_items (map glob_item p) n = (n = p)"
    by (simp add: match_glob_literal)
  then show "matchGlobPattern n p = Some (n = p)"
    by (simp add: matchGlobPattern_items)
  from lit show "\<exists>regex. regexp_compile ([c_caret] @ regexPattern p @ [c_dollar]) = Some regex
                  \<and> match_items regex n = (n = p)"
    using regexp_compile_regexPattern [of p] by blast
next
  show "matchGlobPattern p p = Some True"
    by (simp add: matchGlobPattern_def)
next
  show "matchGlobPattern n [] = Some (n = [])"
    by (simp add: matchGlobPattern_items)
qed

theorem matchGlobPattern_no_wildcard_witness:
  "matchGlobPattern (ascii ''release-1x2'') (ascii ''release-1.2'') = Some False
   \<and> matchGlobPattern (ascii ''release-1.2'') (ascii ''release-1.2'') = Some True
   \<and> matchGlobPattern (ascii ''x'') [] = Some False"
proof -
  have "c_star \<notin> set (ascii ''release-1.2'') \<and> c_question \<notin> set (ascii ''release-1.2'')"
    by (simp add: ascii_def c_star_def c_question_def)
  moreover have "ascii ''release-1x2'' \<noteq> ascii ''release-1.2''" "ascii ''x'' \<noteq> []"
    by (simp_all add: ascii_def)
  ultimately show ?thesis
    using matchGlobPattern_no_wildcard [of "ascii ''release-1.2''" "ascii ''release-1x2''"]
      matchGlobPattern_no_wildcard [of "ascii ''release-1.2''" "ascii ''x''"]
    by simp
qed

section \<open>The confirmation prompt\<close>

lemma lower_unit_letter:
  assumes "lower_unit a = u # us" and "u = 0x79 \<or> u = 0x65 \<or> u = 0x73"
  shows "us = [] \<and> (a = u \<or> a = u - 0x20)"
proof (cases "0x41 \<le> a \<and> a \<le> 0x5A")
  case True
  with assms(1) have "u = a + 0x20" "us = []"
    by (simp_all add: lower_unit_def)
  then show ?thesis by simp
next
  case False
  with assms show ?thesis
    by (auto simp add: lower_unit_def split: if_splits)
qed

lemma lower_unit_y: "lower_unit 0x79 = [0x79]" "lower_unit 0x59 = [0x79]"
  and lower_unit_e: "lower_unit 0x65 = [0x65]" "lower_unit 0x45 = [0x65]"
  and lower_unit_s: "lower_unit 0x73 = [0x73]" "lower_unit 0x53 = [0x73]"
  by (simp_all add: lower_unit_def)

lemma toLowerCase_Nil_iff: "toLowerCase s = [] \<longleftrightarrow> s = []"
  by (cases s) (auto simp add: toLowerCase_def lower_unit_def)

lemma toLowerCase_Cons: "toLowerCase (a # r) = lower_unit a @ toLowerCase r"
  by (simp add: toLowerCase_def)

lemma toLowerCase_letter:
  assumes "toLowerCase s = u # ts" and "u = 0x79 \<or> u = 0x65 \<or> u = 0x73"
  shows "\<exists>a r. s = a # r \<and> (a = u \<or> a = u - 0x20) \<and> toLowerCase r = ts"
proof (cases s)
  case Nil
  with assms show ?thesis by (simp add: toLowerCase_def)
next
  case (Cons a r)
  obtain v vs where lu: "lower_unit a = v # vs"
    by (cases "lower_unit a") (auto simp add: lower_unit_def split: if_splits)
  with assms(1) Cons have v: "v = u" and rest: "vs @ toLowerCase r = ts"
    by (simp_all add: toLowerCase_Cons)
  from lu v assms(2) have "vs = [] \<and> (a = u \<or> a = u - 0x20)"
    using lower_unit_letter [of a u vs] by simp
  with rest Cons show ?thesis by simp
qed

lemma toLowerCase_y:
  "toLowerCase s = ascii ''y'' \<longleftrightarrow> s = ascii ''y'' \<or> s = ascii ''Y''"
proof
  assume "toLowerCase s = ascii ''y''"
  then have "toLowerCase s = 0x79 # []" by (simp add: ascii_def)
  then obtain a r where "s = a # r" "a = 0x79 \<or> a = 0x79 - 0x20" "toLowerCase r = []"
    using toLowerCase_letter [of s "0x79" "[]"] by auto
  then show "s = ascii ''y'' \<or> s = ascii ''Y''"
    by (auto simp add: toLowerCase_Nil_iff ascii_def)
next
  assume "s = ascii ''y'' \<or> s = ascii ''Y''"
  then show "toLowerCase s = ascii ''y''"
    by (auto simp add: ascii_def toLowerCase_def lower_unit_def)
qed

lemma toLowerCase_yes:
  "toLowerCase s = ascii ''yes'' \<longleftrightarrow>
     (\<exists>a b c. s = [a, b, c] \<and> (a = 0x79 \<or> a = 0x59) \<and> (b = 0x65 \<or> b = 0x45) \<and> (c = 0x73 \<or> c = 0x53))"
proof
  assume "toLowerCase s = ascii ''yes''"
  then have "toLowerCase s = 0x79 # [0x65, 0x73]" by (simp add: ascii_def)
  then obtain a r where a: "s = a # r" "a = 0x79 \<or> a = 0x79 - 0x20" "toLowerCase r = 0x65 # [0x73]"
    using toLowerCase_letter [of s "0x79" "[0x65, 0x73]"] by auto
  then obtain b r' where b: "r = b # r'" "b = 0x65 \<or> b = 0x65 - 0x20" "toLowerCase r' = 0x73 # []"
    using toLowerCase_letter [of r "0x65" "[0x73]"] by auto
  then obtain c r'' where c: "r' = c # r''" "c = 0x73 \<or> c = 0x73 - 0x20" "toLowerCase r'' = []"
    using toLowerCase_letter [of r' "0x73" "[]"] by auto
  from a b c show "\<exists>a b c. s = [a, b, c] \<and> (a = 0x79 \<or> a = 0x59) \<and> (b = 0x65 \<or> b = 0x45) \<and> (c = 0x73 \<or> c = 0x53)"
    by (auto simp add: toLowerCase_Nil_iff)
next
  assume "\<exists>a b c. s = [a, b, c] \<and> (a = 0x79 \<or> a = 0x59) \<and> (b = 0x65 \<or> b = 0x45) \<and> (c = 0x73 \<or> c = 0x53)"
  then obtain a b c where s: "s = [a, b, c]" and "a = 0x79 \<or> a = 0x59" "b = 0x65 \<or> b = 0x45" "c = 0x73 \<or> c = 0x53"
    by blast
  then have "lower_unit a = [0x79]" "lower_unit b = [0x65]" "lower_unit c = [0x73]"
    using lower_unit_y lower_unit_e lower_unit_s by auto
  with s show "toLowerCase s = ascii ''yes''"
    by (simp add: toLowerCase_def ascii_def)
qed

lemma yes_answers_iff:
  "s \<in> set yes_answers \<longleftrightarrow>
     (s = ascii ''y'' \<or> s = ascii ''Y'' \<or>
      (\<exists>a b c. s = [a, b, c] \<and> (a = 0x79 \<or> a = 0x59) \<and> (b = 0x65 \<or> b = 0x45) \<and> (c = 0x73 \<or> c = 0x53)))"
  by (auto simp add: yes_answers_def ascii_def)

text \<open>
  Claim C9. The confirmation is true exactly when the lower-cased answer is \<open>yes\<close> or \<open>y\<close>,
  that is exactly for the ten spellings of these two words in any letter case; the empty
  answer, \<open>ok\<close> and \<open>sure\<close> are cancellations.
\<close>

theorem askUserConfirmation_yes_only:
  "askUserConfirmation answer = (toLowerCase answer = ascii ''yes'' \<or> toLowerCase answer = ascii ''y'')
   \<and> askUserConfirmation answer = (answer \<in> set yes_answers)
   \<and> \<not> askUserConfirmation []
   \<and> \<not> askUserConfirmation (ascii ''ok'')
   \<and> \<not> askUserConfirmation (ascii ''sure'')"
proof (intro conjI)
  show "askUserConfirmation answer = (toLowerCase answer = ascii ''yes'' \<or> toLowerCase answer = ascii ''y'')"
    by (simp add: askUserConfirmation_def)
  show "askUserConfirmation answer = (answer \<in> set yes_answers)"
    unfolding askUserConfirmation_def toLowerCase_y toLowerCase_yes yes_answers_iff by blast
  show "\<not> askUserConfirmation []"
    by code_simp
  show "\<not> askUserConfirmation (ascii ''ok'')"
    by code_simp
  show "\<not> askUserConfirmation (ascii ''sure'')"
    by code_simp
qed

section \<open>loadConfig: the shape of its result\<close>

lemma build_config_Inr:
  assumes "build_config userConfig = Inr config"
  shows "\<exists>ep userExclude sd pb userProtected.
           get_property userConfig (ascii ''excludePatterns'') = Inr ep
         \<and> spread (nullish ep (JArr [])) = Inr userExclude
         \<and> get_property userConfig (ascii ''staleDays'') = Inr sd
         \<and> get_property userConfig (ascii ''protectedBranches'') = Inr pb
         \<and> spread (nullish pb (JArr [])) = Inr userProtected
         \<and> config = \<lparr>excludePatterns = map JStr builtin_protected @ userExclude,
                      staleDays = nullish sd (JNum 30),
                      protectedBranches = map JStr builtin_protected @ userProtected\<rparr>"
  using assms
  by (auto simp add: build_config_def DEFAULT_CONFIG_def split: sum.splits)

lemma loadConfig_total: "\<exists>logs config. loadConfig env customPath = Inr (logs, config)"
  by (auto simp add: loadConfig_def split: sum.splits option.splits prod.splits)

lemma loadConfig_cases:
  assumes "loadConfig env customPath = Inr (logs, config)"
  shows "config = DEFAULT_CONFIG
         \<or> (\<exists>p content userConfig.
               locate_config env customPath = Inr (Some p) \<and> p \<noteq> []
             \<and> readFileSync env p = Some content
             \<and> JSON_parse env content = Some userConfig
             \<and> build_config userConfig = Inr config
             \<and> logs = [Loaded_from p])"
  using assms
  by (auto simp add: loadConfig_def loadConfig_try_def
           split: sum.splits option.splits prod.splits if_splits)

lemma search_config_None:
  "search_config env names = None \<longleftrightarrow> (\<forall>f\<in>set names. \<not> existsSync env (path_join env (cwd env) f))"
  by (induction names) (auto simp add: Let_def)

lemma search_config_Some:
  "search_config env names = Some p \<Longrightarrow> \<exists>f\<in>set names. p = path_join env (cwd env) f \<and> existsSync env p"
  by (induction names) (auto simp add: Let_def split: if_splits)

text \<open>
  Claim C4. For every platform state and every custom path, \<open>loadConfig\<close> returns, and the
  \<open>protectedBranches\<close> of the returned object are the built-in list followed by whatever the
  user supplied: every built-in name is still in it.
\<close>

theorem loadConfig_keeps_builtin_protected:
  "\<exists>logs config userProtected.
      loadConfig env customPath = Inr (logs, config)
    \<and> protectedBranches config = map JStr builtin_protected @ userProtected
    \<and> set (map JStr builtin_protected) \<subseteq> set (protectedBranches config)
    \<and> builtin_protected =
         [ascii ''main'', ascii ''master'', ascii ''dev'', ascii ''develop'', ascii ''development'',
          ascii ''stage'', ascii ''staging'', ascii ''prod'', ascii ''production'', ascii ''preview'',
          ascii ''release'']"
proof -
  obtain logs config where lc: "loadConfig env customPath = Inr (logs, config)"
    using loadConfig_total by blast
  then consider (default) "config = DEFAULT_CONFIG"
    | (loaded) userConfig where "build_config userConfig = Inr config"
    using loadConfig_cases by blast
  then have "\<exists>userProtected. protectedBranches config = map JStr builtin_protected @ userProtected"
  proof cases
    case default
    then show ?thesis by (simp add: DEFAULT_CONFIG_def)
  next
    case loaded
    then show ?thesis using build_config_Inr [of userConfig config] by auto
  qed
  then obtain userProtected
    where "protectedBranches config = map JStr builtin_protected @ userProtected"
    by blast
  with lc show ?thesis
    by (auto simp add: builtin_protected_def)
qed

theorem loadConfig_keeps_builtin_protected_witness:
  "loadConfig (example_platform (Some (JObj [(ascii ''protectedBranches'', JArr [JStr (ascii ''keep-me'')])]))) None
     = Inr ([Loaded_from (ascii ''/repo/.branchcleanerrc'')],
            \<lparr>excludePatterns = map JStr builtin_protected,
             staleDays = JNum 30,
             protectedBranches = map JStr builtin_protected @ [JStr (ascii ''keep-me'')]\<rparr>)
   \<and> JStr (ascii ''main'') \<in> set (map JStr builtin_protected @ [JStr (ascii ''keep-me'')])"
proof -
  have "loadConfig (example_platform (Some (JObj [(ascii ''protectedBranches'', JArr [JStr (ascii ''keep-me'')])]))) None
     = Inr ([Loaded_from (ascii ''/repo/.branchcleanerrc'')],
            \<lparr>excludePatterns = map JStr builtin_protected,
             staleDays = JNum 30,
             protectedBranches = map JStr builtin_protected @ [JStr (ascii ''keep-me'')]\<rparr>)"
    by (simp add: loadConfig_def locate_config_def truthy_def CONFIG_FILE_NAMES_def
        example_platform_def loadConfig_try_def build_config_def DEFAULT_CONFIG_def ascii_def)
  moreover
  obtain logs config where
    "loadConfig (example_platform (Some (JObj [(ascii ''protectedBranches'', JArr [JStr (ascii ''keep-me'')])]))) None
       = Inr (logs, config)"
    and sub: "set (map JStr builtin_protected) \<subseteq> set (protectedBranches config)"
    and names: "builtin_protected =
         [ascii ''main'', ascii ''master'', ascii ''dev'', ascii ''develop'', ascii ''development'',
          ascii ''stage'', ascii ''staging'', ascii ''prod'', ascii ''production'', ascii ''preview'',
          ascii ''release'']"
    using loadConfig_keeps_builtin_protected
      [of "example_platform (Some (JObj [(ascii ''protectedBranches'', JArr [JStr (ascii ''keep-me'')])]))" None]
    by blast
  moreover have "JStr (ascii ''main'') \<in> set (map JStr builtin_protected)"
    by (simp add: builtin_protected_def)
  ultimately show ?thesis
    by auto
qed

lemma loadConfig_missing_custom:
  assumes "customPath = Some p" "p \<noteq> []" "\<not> existsSync env (path_resolve env p)"
  shows "loadConfig env customPath = Inr ([Warn_not_found (path_resolve env p)], DEFAULT_CONFIG)"
  using assms by (simp add: loadConfig_def locate_config_def truthy_def Let_def)

lemma loadConfig_try_failed:
  assumes "locate_config env customPath = Inr (Some cfgFile)" "cfgFile \<noteq> []"
    and "loadConfig_try env cfgFile = (logs, Inl e)"
  shows "loadConfig env customPath = Inr (logs @ [Warn_parse_failed e], DEFAULT_CONFIG)"
  using assms by (simp add: loadConfig_def)

lemma loadConfig_not_found:
  assumes "locate_config env customPath = Inr None"
  shows "loadConfig env customPath = Inr ([], DEFAULT_CONFIG)"
  using assms by (simp add: loadConfig_def)

lemma locate_config_search:
  assumes "\<not> truthy customPath"
    and "\<forall>f\<in>set CONFIG_FILE_NAMES. \<not> existsSync env (path_join env (cwd env) f)"
  shows "locate_config env customPath = Inr None"
  using assms search_config_None [of env CONFIG_FILE_NAMES]
  by (simp add: locate_config_def)

text \<open>
  Claim C5. \<open>loadConfig\<close> always returns an object (no exception leaves it). For a
  custom path whose file does not exist it warns and returns the defaults; for a file
  whose content does not parse, and for every other exception of the \<open>try\<close> block, it
  warns and returns the defaults. The defaults are the empty exclude list, 30 days and
  the built-in protected names. \<open>process.cwd\<close>, \<open>path.resolve\<close>, \<open>path.join\<close> and
  \<open>fs.existsSync\<close> are taken as returning normally (see \<open>platform\<close>).
\<close>

theorem loadConfig_never_throws:
  "(\<exists>logs config. loadConfig env customPath = Inr (logs, config))
   \<and> (customPath = Some p \<and> p \<noteq> [] \<and> \<not> existsSync env (path_resolve env p) \<longrightarrow>
        loadConfig env customPath = Inr ([Warn_not_found (path_resolve env p)], DEFAULT_CONFIG))
   \<and> (locate_config env customPath = Inr (Some cfgFile) \<and> cfgFile \<noteq> []
        \<and> readFileSync env cfgFile = Some content \<and> JSON_parse env content = None \<longrightarrow>
        loadConfig env customPath = Inr ([Warn_parse_failed JsonSyntaxError], DEFAULT_CONFIG))
   \<and> (locate_config env customPath = Inr (Some cfgFile) \<and> cfgFile \<noteq> []
        \<and> loadConfig_try env cfgFile = (logs', Inl e) \<longrightarrow>
        loadConfig env customPath = Inr (logs' @ [Warn_parse_failed e], DEFAULT_CONFIG))
   \<and> excludePatterns DEFAULT_CONFIG = []
   \<and> staleDays DEFAULT_CONFIG = JNum 30
   \<and> protectedBranches DEFAULT_CONFIG = map JStr builtin_protected"
proof (intro conjI impI)
  show "\<exists>logs config. loadConfig env customPath = Inr (logs, config)"
    by (rule loadConfig_total)
next
  assume "customPath = Some p \<and> p \<noteq> [] \<and> \<not> existsSync env (path_resolve env p)"
  then show "loadConfig env customPath = Inr ([Warn_not_found (path_resolve env p)], DEFAULT_CONFIG)"
    by (simp add: loadConfig_missing_custom)
next
  assume a: "locate_config env customPath = Inr (Some cfgFile) \<and> cfgFile \<noteq> []
        \<and> readFileSync env cfgFile = Some content \<and> JSON_parse env content = None"
  then have "loadConfig_try env cfgFile = ([], Inl JsonSyntaxError)"
    by (simp add: loadConfig_try_def)
  with a show "loadConfig env customPath = Inr ([Warn_parse_failed JsonSyntaxError], DEFAULT_CONFIG)"
    using loadConfig_try_failed [of env customPath cfgFile "[]" JsonSyntaxError] by simp
next
  assume "locate_config env customPath = Inr (Some cfgFile) \<and> cfgFile \<noteq> []
        \<and> loadConfig_try env cfgFile = (logs', Inl e)"
  then show "loadConfig env customPath = Inr (logs' @ [Warn_parse_failed e], DEFAULT_CONFIG)"
    by (simp add: loadConfig_try_failed)
qed (simp_all add: DEFAULT_CONFIG_def)

theorem loadConfig_never_throws_witness:
  "loadConfig empty_platform (Some (ascii ''missing.json''))
     = Inr ([Warn_not_found (ascii ''/repo/missing.json'')], DEFAULT_CONFIG)
   \<and> loadConfig (example_platform None) None
     = Inr ([Warn_parse_failed JsonSyntaxError], DEFAULT_CONFIG)"
proof -
  have "\<not> existsSync empty_platform (path_resolve empty_platform (ascii ''missing.json''))"
    "path_resolve empty_platform (ascii ''missing.json'') = ascii ''/repo/missing.json''"
    "ascii ''missing.json'' \<noteq> []"
    by (simp_all add: empty_platform_def ascii_def)
  moreover have "locate_config (example_platform None) None = Inr (Some (ascii ''/repo/.branchcleanerrc''))"
    by (simp add: locate_config_def truthy_def CONFIG_FILE_NAMES_def example_platform_def ascii_def)
  moreover have "ascii ''/repo/.branchcleanerrc'' \<noteq> []"
    "readFileSync (example_platform None) (ascii ''/repo/.branchcleanerrc'') = Some (ascii ''text'')"
    "JSON_parse (example_platform None) (ascii ''text'') = None"
    by (simp_all add: example_platform_def ascii_def)
  ultimately show ?thesis
    using loadConfig_never_throws [of empty_platform "Some (ascii ''missing.json'')" "ascii ''missing.json''"]
      loadConfig_never_throws [of "example_platform None" None _ "ascii ''/repo/.branchcleanerrc''" "ascii ''text''"]
    by simp
qed

text \<open>
  Claim C10. With no custom path and none of the conventional files present, and with a
  file whose content does not parse, the returned \<open>excludePatterns\<close> is empty. A non-empty
  \<open>excludePatterns\<close> means that a file was found, read and parsed, and then the list starts
  with the built-in protected names. Whenever \<open>excludePatterns\<close> is empty the result is the
  default object, whose \<open>protectedBranches\<close> alone carry the built-in names.
\<close>

theorem loadConfig_excludePatterns_folding:
  assumes "loadConfig env customPath = Inr (logs, config)"
  shows "(\<not> truthy customPath
            \<and> (\<forall>f\<in>set CONFIG_FILE_NAMES. \<not> existsSync env (path_join env (cwd env) f))
          \<longrightarrow> excludePatterns config = [])
       \<and> (locate_config env customPath = Inr (Some cfgFile) \<and> cfgFile \<noteq> []
            \<and> readFileSync env cfgFile = Some content \<and> JSON_parse env content = None
          \<longrightarrow> excludePatterns config = [])
       \<and> (excludePatterns config \<noteq> [] \<longrightarrow>
            (\<exists>cfgFile' content' userConfig userExclude.
                locate_config env customPath = Inr (Some cfgFile')
              \<and> readFileSync env cfgFile' = Some content'
              \<and> JSON_parse env content' = Some userConfig
              \<and> excludePatterns config = map JStr builtin_protected @ userExclude))
       \<and> (excludePatterns config = [] \<longrightarrow> config = DEFAULT_CONFIG)"
proof (intro conjI impI)
  assume "\<not> truthy customPath
            \<and> (\<forall>f\<in>set CONFIG_FILE_NAMES. \<not> existsSync env (path_join env (cwd env) f))"
  then have "loadConfig env customPath = Inr ([], DEFAULT_CONFIG)"
    by (simp add: locate_config_search loadConfig_not_found)
  with assms show "excludePatterns config = []"
    by (auto simp add: DEFAULT_CONFIG_def)
next
  assume "locate_config env customPath = Inr (Some cfgFile) \<and> cfgFile \<noteq> []
            \<and> readFileSync env cfgFile = Some content \<and> JSON_parse env content = None"
  then have "loadConfig env customPath = Inr ([Warn_parse_failed JsonSyntaxError], DEFAULT_CONFIG)"
    using loadConfig_try_failed [of env customPath cfgFile "[]" JsonSyntaxError]
    by (simp add: loadConfig_try_def)
  with assms show "excludePatterns config = []"
    by (auto simp add: DEFAULT_CONFIG_def)
next
  assume ne: "excludePatterns config \<noteq> []"
  then have "config \<noteq> DEFAULT_CONFIG"
    by (auto simp add: DEFAULT_CONFIG_def)
  then obtain p content' userConfig where
    "locate_config env customPath = Inr (Some p)" "readFileSync env p = Some content'"
    "JSON_parse env content' = Some userConfig" "build_config userConfig = Inr config"
    using loadConfig_cases [OF assms] by blast
  moreover from this(4) obtain userExclude
    where "excludePatterns config = map JStr builtin_protected @ userExclude"
    using build_config_Inr [of userConfig config] by auto
  ultimately show "\<exists>cfgFile' content' userConfig userExclude.
                locate_config env customPath = Inr (Some cfgFile')
              \<and> readFileSync env cfgFile' = Some content'
              \<and> JSON_parse env content' = Some userConfig
              \<and> excludePatterns config = map JStr builtin_protected @ userExclude"
    by blast
next
  assume e: "excludePatterns config = []"
  show "config = DEFAULT_CONFIG"
  proof (rule ccontr)
    assume "config \<noteq> DEFAULT_CONFIG"
    then obtain userConfig where "build_config userConfig = Inr config"
      using loadConfig_cases [OF assms] by blast
    then obtain userExclude
      where "excludePatterns config = map JStr builtin_protected @ userExclude"
      using build_config_Inr [of userConfig config] by auto
    with e show False
      by (simp add: builtin_protected_def)
  qed
qed

theorem loadConfig_excludePatterns_folding_witness:
  "loadConfig empty_platform None = Inr ([], DEFAULT_CONFIG)
   \<and> excludePatterns DEFAULT_CONFIG = []
   \<and> loadConfig (example_platform (Some (JObj [(ascii ''excludePatterns'', JArr [JStr (ascii ''release-*'')])]))) None
       = Inr ([Loaded_from (ascii ''/repo/.branchcleanerrc'')],
              \<lparr>excludePatterns = map JStr builtin_protected @ [JStr (ascii ''release-*'')],
               staleDays = JNum 30,
               protectedBranches = map JStr builtin_protected\<rparr>)"
proof -
  have l: "loadConfig empty_platform None = Inr ([], DEFAULT_CONFIG)"
    by (simp add: loadConfig_def locate_config_def truthy_def CONFIG_FILE_NAMES_def empty_platform_def)
  have "\<not> truthy None
        \<and> (\<forall>f\<in>set CONFIG_FILE_NAMES. \<not> existsSync empty_platform (path_join empty_platform (cwd empty_platform) f))"
    by (simp add: truthy_def empty_platform_def)
  with l have "excludePatterns DEFAULT_CONFIG = []"
    using loadConfig_excludePatterns_folding [of empty_platform None "[]" DEFAULT_CONFIG]
    by blast
  moreover have "loadConfig (example_platform (Some (JObj [(ascii ''excludePatterns'', JArr [JStr (ascii ''release-*'')])]))) None
       = Inr ([Loaded_from (ascii ''/repo/.branchcleanerrc'')],
              \<lparr>excludePatterns = map JStr builtin_protected @ [JStr (ascii ''release-*'')],
               staleDays = JNum 30,
               protectedBranches = map JStr builtin_protected\<rparr>)"
    by (simp add: loadConfig_def locate_config_def truthy_def CONFIG_FILE_NAMES_def
        example_platform_def loadConfig_try_def build_config_def DEFAULT_CONFIG_def ascii_def)
  ultimately show ?thesis
    using l by simp
qed

section \<open>parseArgs: the stale-days flag\<close>

lemma stale_flag_distinct:
  "ascii ''-s'' \<noteq> ascii ''-h''" "ascii ''-s'' \<noteq> ascii ''--help''"
  "ascii ''-s'' \<noteq> ascii ''-p''" "ascii ''-s'' \<noteq> ascii ''--path''"
  "ascii ''-s'' \<noteq> ascii ''-c''" "ascii ''-s'' \<noteq> ascii ''--config''"
  "ascii ''-s'' \<noteq> ascii ''-e''" "ascii ''-s'' \<noteq> ascii ''--exclude''"
  "ascii ''--stale-days'' \<noteq> ascii ''-h''" "ascii ''--stale-days'' \<noteq> ascii ''--help''"
  "ascii ''--stale-days'' \<noteq> ascii ''-p''" "ascii ''--stale-days'' \<noteq> ascii ''--path''"
  "ascii ''--stale-days'' \<noteq> ascii ''-c''" "ascii ''--stale-days'' \<noteq> ascii ''--config''"
  "ascii ''--stale-days'' \<noteq> ascii ''-e''" "ascii ''--stale-days'' \<noteq> ascii ''--exclude''"
  by (simp_all add: ascii_def)

lemma stale_flag_step:
  assumes "flag = ascii ''-s'' \<or> flag = ascii ''--stale-days''"
  shows "parseArgs_loop result (flag # v # rest)
          = parseArgs_loop (case parseInt10 v of None \<Rightarrow> result
                            | Some days \<Rightarrow> result\<lparr>staleDays_cli := Some days\<rparr>) rest"
  using assms
proof
  assume "flag = ascii ''-s''"
  then show ?thesis
    by (simp add: stale_flag_distinct parseInt_arg_def)
next
  assume "flag = ascii ''--stale-days''"
  then show ?thesis
    by (simp add: stale_flag_distinct parseInt_arg_def)
qed

lemma stale_flag_only:
  assumes "flag = ascii ''-s'' \<or> flag = ascii ''--stale-days''"
  shows "parseArgs [flag, v] = Parsed (initial_args\<lparr>staleDays_cli := parseInt10 v\<rparr>)"
proof -
  have "parseArgs_loop initial_args [flag, v]
          = parseArgs_loop (case parseInt10 v of None \<Rightarrow> initial_args
             | Some days \<Rightarrow> initial_args\<lparr>staleDays_cli := Some days\<rparr>) []"
    by (rule stale_flag_step [OF assms])
  also have "\<dots> = (case parseInt10 v of None \<Rightarrow> initial_args
             | Some days \<Rightarrow> initial_args\<lparr>staleDays_cli := Some days\<rparr>)"
    by (simp only: parseArgs_loop.simps(1))
  also have "\<dots> = initial_args\<lparr>staleDays_cli := parseInt10 v\<rparr>"
    by (cases "parseInt10 v") (simp_all add: initial_args_def)
  finally have loop:
    "parseArgs_loop initial_args [flag, v] = initial_args\<lparr>staleDays_cli := parseInt10 v\<rparr>" .
  have "\<not> help_cli (initial_args\<lparr>staleDays_cli := parseInt10 v\<rparr>)"
    by (simp add: initial_args_def)
  then show ?thesis
    unfolding parseArgs_def loop Let_def by simp
qed

section \<open>The git tools\<close>

lemma replace_first_prefix: "replace_first (p @ b) p [] = b"
proof (cases "p @ b")
  case Nil
  then show ?thesis by simp
next
  case (Cons c cs)
  have "startsWith (p @ b) p"
    by (simp add: startsWith_def)
  then have "startsWith (c # cs) p" "drop (length p) (c # cs) = b"
    using Cons [symmetric] by simp_all
  then have "replace_first (c # cs) p [] = b"
    by simp
  then show ?thesis by (simp add: Cons)
qed

text \<open>
  Where the query prints the bare name of the branch to delete, the guard refuses and
  nothing but the query has run.
\<close>

lemma delete_local_branch_guard:
  assumes "sh trace (ascii ''git rev-parse --abbrev-ref HEAD'', repoPath') = Stdout out"
    and "trim out = branch_name"
  shows "delete_local_branch sh repoPath' branch_name force trace
           = (Inr (Failure (ascii ''Cannot delete the currently checked out branch'')),
              trace @ [(ascii ''git rev-parse --abbrev-ref HEAD'', repoPath')])"
  using assms
  by (simp add: delete_local_branch_def execGit_def current_branch_command_def refusal_message_def)

lemma delete_local_branch_guard_example:
  "delete_local_branch on_main_shell (ascii ''/repo'') (ascii ''main'') (Some True) []
     = (Inr (Failure (ascii ''Cannot delete the currently checked out branch'')),
        [(ascii ''git rev-parse --abbrev-ref HEAD'', ascii ''/repo'')])"
  by code_simp

text \<open>
  Claim C7. The claim: deleting the checked-out branch is refused with the specific error
  and no deletion command runs. With \<open>main\<close> checked out and a tag named \<open>main\<close>, the query
  prints \<open>heads/main\<close>, the comparison with \<open>main\<close> fails, and the handler runs
  \<open>git branch -D main\<close> on the checked-out branch; the payload carries git's error, not the
  message of the guard.
\<close>

theorem delete_local_branch_ambiguous_head:
  "delete_local_branch tag_named_main_shell (ascii ''/repo'') (ascii ''main'') (Some True) []
     = (Inr (Failure (ascii ''Git command failed: '' @ git_refusal_stderr)),
        [(ascii ''git rev-parse --abbrev-ref HEAD'', ascii ''/repo''),
         (ascii ''git branch -D main'', ascii ''/repo'')])
   \<and> ascii ''Git command failed: '' @ git_refusal_stderr
       \<noteq> ascii ''Cannot delete the currently checked out branch''"
  by code_simp

text \<open>
  Claim C8. \<open>get_main_branch\<close> runs \<open>git rev-parse --verify main\<close> and answers \<open>main\<close> when it
  succeeds; else it runs \<open>git rev-parse --verify master\<close> and answers \<open>master\<close> when that
  succeeds; else it runs \<open>git symbolic-ref refs/remotes/origin/HEAD\<close> and answers its
  trimmed output with the first \<open>refs/remotes/origin/\<close> removed; and it answers \<open>main\<close>
  when that fails too. Four repositories show the four outcomes with the commands run:
  the output \<open>refs/remotes/origin/trunk\<close> with its line feed gives \<open>trunk\<close>.
\<close>

theorem get_main_branch_chain:
  "fst (get_main_branch sh repoPath' trace) =
     (case sh trace (ascii ''git rev-parse --verify main'', repoPath') of
        Stdout out \<Rightarrow> ascii ''main''
      | _ \<Rightarrow>
        (case sh (trace @ [(ascii ''git rev-parse --verify main'', repoPath')])
                 (ascii ''git rev-parse --verify master'', repoPath') of
           Stdout out \<Rightarrow> ascii ''master''
         | _ \<Rightarrow>
           (case sh (trace @ [(ascii ''git rev-parse --verify main'', repoPath'),
                              (ascii ''git rev-parse --verify master'', repoPath')])
                    (ascii ''git symbolic-ref refs/remotes/origin/HEAD'', repoPath') of
              Stdout out \<Rightarrow> replace_first (trim out) (ascii ''refs/remotes/origin/'') []
            | _ \<Rightarrow> ascii ''main'')))
   \<and> replace_first (ascii ''refs/remotes/origin/'' @ b) (ascii ''refs/remotes/origin/'') [] = b
   \<and> get_main_branch
        (answering_shell [(ascii ''git symbolic-ref refs/remotes/origin/HEAD'',
                           ascii ''refs/remotes/origin/trunk'' @ [0x0A])])
        (ascii ''/repo'') []
      = (ascii ''trunk'',
         [(ascii ''git rev-parse --verify main'', ascii ''/repo''),
          (ascii ''git rev-parse --verify master'', ascii ''/repo''),
          (ascii ''git symbolic-ref refs/remotes/origin/HEAD'', ascii ''/repo'')])
   \<and> get_main_branch
        (answering_shell [(ascii ''git rev-parse --verify master'', ascii ''4f2a9c1'' @ [0x0A]),
                          (ascii ''git symbolic-ref refs/remotes/origin/HEAD'',
                           ascii ''refs/remotes/origin/trunk'' @ [0x0A])])
        (ascii ''/repo'') []
      = (ascii ''master'',
         [(ascii ''git rev-parse --verify main'', ascii ''/repo''),
          (ascii ''git rev-parse --verify master'', ascii ''/repo'')])
   \<and> get_main_branch
        (answering_shell [(ascii ''git rev-parse --verify main'', ascii ''8d3e7b0'' @ [0x0A]),
                          (ascii ''git rev-parse --verify master'', ascii ''4f2a9c1'' @ [0x0A])])
        (ascii ''/repo'') []
      = (ascii ''main'', [(ascii ''git rev-parse --verify main'', ascii ''/repo'')])
   \<and> get_main_branch (answering_shell []) (ascii ''/repo'') []
      = (ascii ''main'',
         [(ascii ''git rev-parse --verify main'', ascii ''/repo''),
          (ascii ''git rev-parse --verify master'', ascii ''/repo''),
          (ascii ''git symbolic-ref refs/remotes/origin/HEAD'', ascii ''/repo'')])"
proof (intro conjI)
  show "fst (get_main_branch sh repoPath' trace) =
     (case sh trace (ascii ''git rev-parse --verify main'', repoPath') of
        Stdout out \<Rightarrow> ascii ''main''
      | _ \<Rightarrow>
        (case sh (trace @ [(ascii ''git rev-parse --verify main'', repoPath')])
                 (ascii ''git rev-parse --verify master'', repoPath') of
           Stdout out \<Rightarrow> ascii ''master''
         | _ \<Rightarrow>
           (case sh (trace @ [(ascii ''git rev-parse --verify main'', repoPath'),
                              (ascii ''git rev-parse --verify master'', repoPath')])
                    (ascii ''git symbolic-ref refs/remotes/origin/HEAD'', repoPath') of
              Stdout out \<Rightarrow> replace_first (trim out) (ascii ''refs/remotes/origin/'') []
            | _ \<Rightarrow> ascii ''main'')))"
  proof -
    have c: "verify_command (ascii ''main'') = ascii ''git rev-parse --verify main''"
      "verify_command (ascii ''master'') = ascii ''git rev-parse --verify master''"
      "symbolic_ref_command = ascii ''git symbolic-ref refs/remotes/origin/HEAD''"
      by (simp_all add: verify_command_def symbolic_ref_command_def ascii_def)
    show ?thesis
      unfolding get_main_branch_def execGit_def c
      by (simp split: exec_outcome.splits)
  qed
  show "replace_first (ascii ''refs/remotes/origin/'' @ b) (ascii ''refs/remotes/origin/'') [] = b"
    by (rule replace_first_prefix)
qed code_simp+

section \<open>The effective stale-days threshold\<close>

lemma excess_bits_small: "n < 2 ^ 53 \<Longrightarrow> excess_bits n = 0"
  by simp

text \<open>Below \<open>2^53\<close> the number is the integer read.\<close>

lemma to_double_exact: "n < 2 ^ 53 \<Longrightarrow> to_double n = Finite n"
proof -
  assume a: "n < 2 ^ 53"
  have "(2::int) ^ 53 < 2 ^ 1024" by simp
  with a have "n < 2 ^ 1024" by linarith
  with a show ?thesis
    by (simp add: to_double_def Let_def del: excess_bits.simps add: excess_bits_small)
qed

lemma get_property_member:
  "userConfig \<noteq> JNull \<Longrightarrow> get_property userConfig key = Inr (member userConfig key)"
  by (cases userConfig) (simp_all add: member_def)

lemma spread_nullish_Inr:
  "(\<exists>xs. spread (nullish v (JArr [])) = Inr xs) = spreadable v"
proof (cases v)
  case None
  then show ?thesis by (simp add: spreadable_def)
next
  case (Some j)
  then show ?thesis by (cases j) (simp_all add: spreadable_def)
qed

lemma spread_nullish_Inl:
  assumes "\<not> spreadable v"
  shows "spread (nullish v (JArr [])) = Inl TypeError"
proof (cases v)
  case None
  with assms show ?thesis by (simp add: spreadable_def)
next
  case (Some j)
  with assms show ?thesis by (cases j) (simp_all add: spreadable_def)
qed

lemma build_config_fails:
  assumes "userConfig = JNull
           \<or> \<not> spreadable (member userConfig (ascii ''excludePatterns''))
           \<or> \<not> spreadable (member userConfig (ascii ''protectedBranches''))"
  shows "build_config userConfig = Inl TypeError"
proof (cases "userConfig = JNull")
  case True
  then show ?thesis by (simp add: build_config_def)
next
  case False
  note gp = get_property_member [OF False]
  show ?thesis
  proof (cases "spreadable (member userConfig (ascii ''excludePatterns''))")
    case False
    then show ?thesis
      by (simp add: build_config_def gp spread_nullish_Inl)
  next
    case True
    with assms \<open>userConfig \<noteq> JNull\<close>
    have "\<not> spreadable (member userConfig (ascii ''protectedBranches''))"
      by blast
    moreover obtain ue
      where "spread (nullish (member userConfig (ascii ''excludePatterns'')) (JArr [])) = Inr ue"
      using True spread_nullish_Inr by blast
    ultimately show ?thesis
      by (simp add: build_config_def gp spread_nullish_Inl)
  qed
qed

lemma build_config_succeeds:
  assumes "userConfig \<noteq> JNull"
    and "spreadable (member userConfig (ascii ''excludePatterns''))"
    and "spreadable (member userConfig (ascii ''protectedBranches''))"
  shows "\<exists>config. build_config userConfig = Inr config
           \<and> staleDays config = nullish (member userConfig (ascii ''staleDays'')) (JNum 30)"
proof -
  note gp = get_property_member [OF assms(1)]
  obtain ue where ue: "spread (nullish (member userConfig (ascii ''excludePatterns'')) (JArr [])) = Inr ue"
    using assms(2) spread_nullish_Inr by blast
  obtain up where up: "spread (nullish (member userConfig (ascii ''protectedBranches'')) (JArr [])) = Inr up"
    using assms(3) spread_nullish_Inr by blast
  show ?thesis
    by (simp add: build_config_def gp ue up DEFAULT_CONFIG_def)
qed

lemma loadConfig_staleDays:
  "\<exists>logs config. loadConfig env customPath = Inr (logs, config)
     \<and> staleDays config =
         (case locate_config env customPath of
            Inl missing \<Rightarrow> JNum 30
          | Inr None \<Rightarrow> JNum 30
          | Inr (Some cfgFile) \<Rightarrow>
              if cfgFile = [] then JNum 30
              else
                (case readFileSync env cfgFile of
                   None \<Rightarrow> JNum 30
                 | Some content \<Rightarrow>
                     (case JSON_parse env content of
                        None \<Rightarrow> JNum 30
                      | Some userConfig \<Rightarrow> file_staleDays userConfig)))"
proof (cases "locate_config env customPath")
  case (Inl missing)
  then show ?thesis by (simp add: loadConfig_def DEFAULT_CONFIG_def)
next
  case (Inr found)
  show ?thesis
  proof (cases found)
    case None
    with Inr show ?thesis by (simp add: loadConfig_def DEFAULT_CONFIG_def)
  next
    case (Some cfgFile)
    show ?thesis
    proof (cases "cfgFile = []")
      case True
      with Inr Some show ?thesis by (simp add: loadConfig_def DEFAULT_CONFIG_def)
    next
      case False
      note ne = this
      show ?thesis
      proof (cases "readFileSync env cfgFile")
        case None
        with Inr Some ne show ?thesis
          by (simp add: loadConfig_def loadConfig_try_def DEFAULT_CONFIG_def)
      next
        case (Some content)
        note rd = this
        show ?thesis
        proof (cases "JSON_parse env content")
          case None
          with Inr \<open>found = Some cfgFile\<close> ne rd show ?thesis
            by (simp add: loadConfig_def loadConfig_try_def DEFAULT_CONFIG_def)
        next
          case (Some userConfig)
          note ps = this
          show ?thesis
          proof (cases "userConfig \<noteq> JNull
                 \<and> spreadable (member userConfig (ascii ''excludePatterns''))
                 \<and> spreadable (member userConfig (ascii ''protectedBranches''))")
            case True
            then obtain config where "build_config userConfig = Inr config"
              "staleDays config = nullish (member userConfig (ascii ''staleDays'')) (JNum 30)"
              using build_config_succeeds [of userConfig] by blast
            moreover from True have "file_staleDays userConfig
                  = nullish (member userConfig (ascii ''staleDays'')) (JNum 30)"
              unfolding file_staleDays_def by (rule if_P)
            ultimately show ?thesis
              using Inr \<open>found = Some cfgFile\<close> ne rd ps
              by (simp add: loadConfig_def loadConfig_try_def)
          next
            case False
            then have "build_config userConfig = Inl TypeError"
              using build_config_fails [of userConfig] by blast
            moreover from False have "file_staleDays userConfig = JNum 30"
              unfolding file_staleDays_def by (rule if_not_P)
            ultimately show ?thesis
              using Inr \<open>found = Some cfgFile\<close> ne rd ps
              by (simp add: loadConfig_def loadConfig_try_def DEFAULT_CONFIG_def)
          qed
        qed
      qed
    qed
  qed
qed

text \<open>
  The resolution as the specification words it (\<open>spec_staleDays\<close>) differs from the program
  at two inputs. \<open>-s -5\<close> with no configuration file: the program takes -5, the wording
  keeps 30 because -5 is not a non-negative integer. A file with \<open>staleDays: 1.5\<close> and no
  flag: the program takes 1.5, the wording falls back to 30 because 1.5 is no integer.
\<close>

theorem staleDays_spec_counterexample:
  "runAgent_settings empty_platform [ascii ''-s'', ascii ''-5'']
     = Inr ([], \<lparr>effective_excludePatterns = [], effective_staleDays = From_cli (Finite (- 5)),
                 effective_repoPath = ascii ''/repo''\<rparr>)
   \<and> spec_staleDays None (Some (ascii ''-5'')) = From_config (JNum 30)
   \<and> From_cli (Finite (- 5)) \<noteq> From_config (JNum 30)
   \<and> runAgent_settings (example_platform (Some (JObj [(ascii ''staleDays'', JNum (3 / 2))]))) []
     = Inr ([Loaded_from (ascii ''/repo/.branchcleanerrc'')],
            \<lparr>effective_excludePatterns = map JStr builtin_protected,
             effective_staleDays = From_config (JNum (3 / 2)),
             effective_repoPath = ascii ''/repo''\<rparr>)
   \<and> spec_staleDays (Some (JNum (3 / 2))) None = From_config (JNum 30)
   \<and> From_config (JNum (3 / 2)) \<noteq> From_config (JNum 30)"
proof (intro conjI)
  show "runAgent_settings empty_platform [ascii ''-s'', ascii ''-5'']
     = Inr ([], \<lparr>effective_excludePatterns = [], effective_staleDays = From_cli (Finite (- 5)),
                 effective_repoPath = ascii ''/repo''\<rparr>)"
    by code_simp
  show "spec_staleDays None (Some (ascii ''-5'')) = From_config (JNum 30)"
    by code_simp
  show "From_cli (Finite (- 5)) \<noteq> From_config (JNum 30)"
    by simp
  show "runAgent_settings (example_platform (Some (JObj [(ascii ''staleDays'', JNum (3 / 2))]))) []
     = Inr ([Loaded_from (ascii ''/repo/.branchcleanerrc'')],
            \<lparr>effective_excludePatterns = map JStr builtin_protected,
             effective_staleDays = From_config (JNum (3 / 2)),
             effective_repoPath = ascii ''/repo''\<rparr>)"
    by code_simp
  show "spec_staleDays (Some (JNum (3 / 2))) None = From_config (JNum 30)"
    by code_simp
  show "From_config (JNum (3 / 2)) \<noteq> From_config (JNum 30)"
    by simp
qed

text \<open>
  Claim C6, as amended. The effective threshold is \<open>args.staleDays ?? config.staleDays\<close>.
  The flag \<open>-s\<close> or \<open>--stale-days\<close> sets \<open>args.staleDays\<close> exactly when \<open>parseInt\<close> of its
  argument (radix 10) is not \<open>NaN\<close>, and then to the double \<open>parseInt\<close> returns: a negative
  number or a number followed by other text is taken, a text without leading digits
  leaves the field as it was, an integer above \<open>2^53\<close> is rounded and a very long one is
  \<open>Infinity\<close>. \<open>config.staleDays\<close> is the \<open>staleDays\<close> member of the file, of whatever type,
  when a file was found, read and parsed to a value other than \<open>null\<close>, the member is
  present and not \<open>null\<close>, and the members \<open>excludePatterns\<close> and \<open>protectedBranches\<close> are
  each absent, \<open>null\<close>, an array or a string; in every other case it is 30.
\<close>

theorem staleDays_resolution:
  "(parseArgs argv = Parsed args \<and> loadConfig env (configPath args) = Inr (logs, config) \<longrightarrow>
      (\<exists>st. runAgent_settings env argv = Inr (logs, st)
          \<and> effective_staleDays st =
              (case staleDays_cli args of
                 Some days \<Rightarrow> From_cli days
               | None \<Rightarrow> From_config (staleDays config))))
   \<and> (flag = ascii ''-s'' \<or> flag = ascii ''--stale-days'' \<longrightarrow>
        parseArgs_loop result (flag # v # rest)
          = parseArgs_loop (case parseInt10 v of None \<Rightarrow> result
                            | Some days \<Rightarrow> result\<lparr>staleDays_cli := Some days\<rparr>) rest
        \<and> parseArgs [flag, v] = Parsed (initial_args\<lparr>staleDays_cli := parseInt10 v\<rparr>))
   \<and> (\<exists>logs' config'. loadConfig env customPath = Inr (logs', config')
        \<and> staleDays config' =
            (case locate_config env customPath of
               Inl missing \<Rightarrow> JNum 30
             | Inr None \<Rightarrow> JNum 30
             | Inr (Some cfgFile) \<Rightarrow>
                 if cfgFile = [] then JNum 30
                 else
                   (case readFileSync env cfgFile of
                      None \<Rightarrow> JNum 30
                    | Some content \<Rightarrow>
                        (case JSON_parse env content of
                           None \<Rightarrow> JNum 30
                         | Some userConfig \<Rightarrow> file_staleDays userConfig))))
   \<and> file_staleDays (JObj [(ascii ''staleDays'', JNum 60)]) = JNum 60
   \<and> file_staleDays (JObj [(ascii ''staleDays'', JNum (3 / 2))]) = JNum (3 / 2)
   \<and> file_staleDays (JObj [(ascii ''staleDays'', JStr (ascii ''soon''))]) = JStr (ascii ''soon'')
   \<and> file_staleDays (JObj [(ascii ''staleDays'', JNull)]) = JNum 30
   \<and> file_staleDays (JObj [(ascii ''staleDays'', JNum 60), (ascii ''excludePatterns'', JNum 5)]) = JNum 30
   \<and> file_staleDays (JObj [(ascii ''staleDays'', JNum 60), (ascii ''protectedBranches'', JBool True)]) = JNum 30
   \<and> parseInt10 (ascii ''60'') = Some (Finite 60)
   \<and> parseInt10 (ascii ''-5'') = Some (Finite (- 5))
   \<and> parseInt10 (ascii '' 12abc'') = Some (Finite 12)
   \<and> parseInt10 (ascii ''soon'') = None
   \<and> parseInt10 (ascii ''-'') = None
   \<and> parseInt10 (ascii ''9007199254740993'') = Some (Finite 9007199254740992)
   \<and> parseInt10 (replicate 310 (of_char CHR ''9'')) = Some PosInfinity"
proof (intro conjI impI)
  assume "parseArgs argv = Parsed args \<and> loadConfig env (configPath args) = Inr (logs, config)"
  then show "\<exists>st. runAgent_settings env argv = Inr (logs, st)
          \<and> effective_staleDays st =
              (case staleDays_cli args of
                 Some days \<Rightarrow> From_cli days
               | None \<Rightarrow> From_config (staleDays config))"
    by (simp add: runAgent_settings_def resolve_staleDays_def)
next
  assume f: "flag = ascii ''-s'' \<or> flag = ascii ''--stale-days''"
  then show "parseArgs_loop result (flag # v # rest)
          = parseArgs_loop (case parseInt10 v of None \<Rightarrow> result
                            | Some days \<Rightarrow> result\<lparr>staleDays_cli := Some days\<rparr>) rest"
    by (rule stale_flag_step)
  from f show "parseArgs [flag, v] = Parsed (initial_args\<lparr>staleDays_cli := parseInt10 v\<rparr>)"
    by (rule stale_flag_only)
next
  show "\<exists>logs' config'. loadConfig env customPath = Inr (logs', config')
        \<and> staleDays config' =
            (case locate_config env customPath of
               Inl missing \<Rightarrow> JNum 30
             | Inr None \<Rightarrow> JNum 30
             | Inr (Some cfgFile) \<Rightarrow>
                 if cfgFile = [] then JNum 30
                 else
                   (case readFileSync env cfgFile of
                      None \<Rightarrow> JNum 30
                    | Some content \<Rightarrow>
                        (case JSON_parse env content of
                           None \<Rightarrow> JNum 30
                         | Some userConfig \<Rightarrow> file_staleDays userConfig)))"
    by (rule loadConfig_staleDays)
qed code_simp+

theorem staleDays_resolution_witness:
  "(\<exists>st. runAgent_settings (example_platform (Some (JObj [(ascii ''staleDays'', JNum 60)])))
            [ascii ''--stale-days'', ascii ''soon'']
          = Inr ([Loaded_from (ascii ''/repo/.branchcleanerrc'')], st)
        \<and> effective_staleDays st = From_config (JNum 60))
   \<and> parseArgs [ascii ''--stale-days'', ascii ''soon''] = Parsed initial_args
   \<and> parseArgs [ascii ''-s'', ascii ''-5'']
       = Parsed (initial_args\<lparr>staleDays_cli := Some (Finite (- 5))\<rparr>)
   \<and> parseArgs [ascii ''-s'', ascii ''9007199254740993'']
       = Parsed (initial_args\<lparr>staleDays_cli := Some (Finite 9007199254740992)\<rparr>)
   \<and> runAgent_settings
        (example_platform
          (Some (JObj [(ascii ''staleDays'', JNum 60), (ascii ''excludePatterns'', JNum 5)]))) []
       = Inr ([Loaded_from (ascii ''/repo/.branchcleanerrc''), Warn_parse_failed TypeError],
              \<lparr>effective_excludePatterns = [],
               effective_staleDays = From_config (JNum 30),
               effective_repoPath = ascii ''/repo''\<rparr>)
   \<and> runAgent_settings custom_file_platform [ascii ''-c'', ascii ''my.json'']
       = Inr ([Loaded_from (ascii ''/repo/my.json'')],
              \<lparr>effective_excludePatterns = map JStr builtin_protected,
               effective_staleDays = From_config (JNum 45),
               effective_repoPath = ascii ''/repo''\<rparr>)
   \<and> runAgent_settings custom_file_platform [ascii ''-c'', ascii ''my.json'', ascii ''-s'', ascii ''7'']
       = Inr ([Loaded_from (ascii ''/repo/my.json'')],
              \<lparr>effective_excludePatterns = map JStr builtin_protected,
               effective_staleDays = From_cli (Finite 7),
               effective_repoPath = ascii ''/repo''\<rparr>)
   \<and> runAgent_settings custom_file_platform []
       = Inr ([], \<lparr>effective_excludePatterns = [],
                   effective_staleDays = From_config (JNum 30),
                   effective_repoPath = ascii ''/repo''\<rparr>)"
proof -
  let ?env = "example_platform (Some (JObj [(ascii ''staleDays'', JNum 60)]))"
  note r = staleDays_resolution
  have p: "parseInt10 (ascii ''soon'') = None" "parseInt10 (ascii ''-5'') = Some (Finite (- 5))"
    "parseInt10 (ascii ''9007199254740993'') = Some (Finite 9007199254740992)"
    using r by blast+
  have a1: "parseArgs [ascii ''--stale-days'', ascii ''soon''] = Parsed initial_args"
  proof -
    have "parseArgs [ascii ''--stale-days'', ascii ''soon'']
            = Parsed (initial_args\<lparr>staleDays_cli := parseInt10 (ascii ''soon'')\<rparr>)"
      using staleDays_resolution [where flag = "ascii ''--stale-days''" and v = "ascii ''soon''"]
      by blast
    then show ?thesis
      unfolding p by (simp add: initial_args_def)
  qed
  have a2: "parseArgs [ascii ''-s'', ascii ''-5'']
              = Parsed (initial_args\<lparr>staleDays_cli := Some (Finite (- 5))\<rparr>)"
  proof -
    have "parseArgs [ascii ''-s'', ascii ''-5'']
            = Parsed (initial_args\<lparr>staleDays_cli := parseInt10 (ascii ''-5'')\<rparr>)"
      using staleDays_resolution [where flag = "ascii ''-s''" and v = "ascii ''-5''"]
      by blast
    then show ?thesis
      unfolding p .
  qed
  have a3: "parseArgs [ascii ''-s'', ascii ''9007199254740993'']
              = Parsed (initial_args\<lparr>staleDays_cli := Some (Finite 9007199254740992)\<rparr>)"
  proof -
    have "parseArgs [ascii ''-s'', ascii ''9007199254740993'']
            = Parsed (initial_args\<lparr>staleDays_cli := parseInt10 (ascii ''9007199254740993'')\<rparr>)"
      using staleDays_resolution [where flag = "ascii ''-s''" and v = "ascii ''9007199254740993''"]
      by blast
    then show ?thesis
      unfolding p .
  qed
  have lc: "loadConfig ?env (configPath initial_args)
     = Inr ([Loaded_from (ascii ''/repo/.branchcleanerrc'')],
            \<lparr>excludePatterns = map JStr builtin_protected, staleDays = JNum 60,
             protectedBranches = map JStr builtin_protected\<rparr>)"
    by (simp add: loadConfig_def locate_config_def truthy_def CONFIG_FILE_NAMES_def initial_args_def
        example_platform_def loadConfig_try_def build_config_def DEFAULT_CONFIG_def ascii_def)
  have "\<exists>st. runAgent_settings ?env [ascii ''--stale-days'', ascii ''soon'']
          = Inr ([Loaded_from (ascii ''/repo/.branchcleanerrc'')], st)
        \<and> effective_staleDays st =
            (case staleDays_cli initial_args of
               Some days \<Rightarrow> From_cli days
             | None \<Rightarrow> From_config
                 (staleDays \<lparr>excludePatterns = map JStr builtin_protected, staleDays = JNum 60,
                             protectedBranches = map JStr builtin_protected\<rparr>))"
    using a1 lc
      staleDays_resolution [where argv = "[ascii ''--stale-days'', ascii ''soon'']"
        and args = initial_args and env = ?env
        and logs = "[Loaded_from (ascii ''/repo/.branchcleanerrc'')]"
        and config = "\<lparr>excludePatterns = map JStr builtin_protected, staleDays = JNum 60,
             protectedBranches = map JStr builtin_protected\<rparr>"]
    by blast
  then have b: "\<exists>st. runAgent_settings ?env [ascii ''--stale-days'', ascii ''soon'']
          = Inr ([Loaded_from (ascii ''/repo/.branchcleanerrc'')], st)
        \<and> effective_staleDays st = From_config (JNum 60)"
    by (simp add: initial_args_def)
  have c: "runAgent_settings
        (example_platform
          (Some (JObj [(ascii ''staleDays'', JNum 60), (ascii ''excludePatterns'', JNum 5)]))) []
       = Inr ([Loaded_from (ascii ''/repo/.branchcleanerrc''), Warn_parse_failed TypeError],
              \<lparr>effective_excludePatterns = [],
               effective_staleDays = From_config (JNum 30),
               effective_repoPath = ascii ''/repo''\<rparr>)"
    by code_simp
  have d: "runAgent_settings custom_file_platform [ascii ''-c'', ascii ''my.json'']
       = Inr ([Loaded_from (ascii ''/repo/my.json'')],
              \<lparr>effective_excludePatterns = map JStr builtin_protected,
               effective_staleDays = From_config (JNum 45),
               effective_repoPath = ascii ''/repo''\<rparr>)"
    by code_simp
  have e: "runAgent_settings custom_file_platform [ascii ''-c'', ascii ''my.json'', ascii ''-s'', ascii ''7'']
       = Inr ([Loaded_from (ascii ''/repo/my.json'')],
              \<lparr>effective_excludePatterns = map JStr builtin_protected,
               effective_staleDays = From_cli (Finite 7),
               effective_repoPath = ascii ''/repo''\<rparr>)"
    by code_simp
  have f: "runAgent_settings custom_file_platform []
       = Inr ([], \<lparr>effective_excludePatterns = [],
                   effective_staleDays = From_config (JNum 30),
                   effective_repoPath = ascii ''/repo''\<rparr>)"
    by code_simp
  from a1 a2 a3 b c d e f show ?thesis by blast
qed

end
